theory Spec2Isabelle
  imports Complex_Main
begin

section \<open>JavaScript arrays and strings\<close>

text \<open>
  The editor keeps its pixel buffer in a JavaScript array of colour strings. Reading such
  an array outside its bounds yields \<open>undefined\<close>, and writing at an index at or beyond
  its length extends the array, leaving holes that read as \<open>undefined\<close>. A cell is therefore
  an optional string, \<open>None\<close> standing for \<open>undefined\<close>, and the two array accesses are
  written out with what JavaScript does out of range. Indices are the cell numbers of the
  canvas, which are non-negative integers.

  A hole and an element that is \<open>undefined\<close> are both \<open>None\<close>. They read alike, compare
  alike and copy alike, but \<open>Array.prototype.map\<close> skips a hole and calls its function
  on \<open>undefined\<close>: where the source maps over the pixel buffer, to build the payload for
  the device, the model gives a result only for a buffer whose cells are all colours.
\<close>

type_synonym cell = "string option"

definition js_get :: "cell list \<Rightarrow> nat \<Rightarrow> cell" where
  "js_get xs i = (if i < length xs then xs ! i else None)"

definition js_set :: "cell list \<Rightarrow> nat \<Rightarrow> cell \<Rightarrow> cell list" where
  "js_set xs i v =
     (if i < length xs then xs[i := v]
      else xs @ replicate (i - length xs) None @ [v])"

text \<open>\<open>xs.slice(a, b)\<close> for non-negative \<open>a\<close> and \<open>b\<close>: both ends are clamped to the array.\<close>

definition js_slice :: "'a list \<Rightarrow> nat \<Rightarrow> nat \<Rightarrow> 'a list" where
  "js_slice xs a b = take (b - a) (drop a xs)"

text \<open>\<open>parts.join(sep)\<close>.\<close>

fun js_join :: "string \<Rightarrow> string list \<Rightarrow> string" where
  "js_join sep [] = []"
| "js_join sep [x] = x"
| "js_join sep (x # y # ys) = x @ sep @ js_join sep (y # ys)"

text \<open>\<open>str.split(",")\<close>: the pieces between commas; the empty string gives one empty piece.\<close>

fun js_split_comma :: "string \<Rightarrow> string list" where
  "js_split_comma [] = [[]]"
| "js_split_comma (ch # rest) =
     (if ch = CHR '','' then [] # js_split_comma rest
      else (case js_split_comma rest of
              [] \<Rightarrow> [[ch]]
            | p # ps \<Rightarrow> (ch # p) # ps))"

text \<open>A cell inside a template literal: \<open>undefined\<close> prints as the word itself.\<close>

definition template :: "cell \<Rightarrow> string" where
  "template color = (case color of None \<Rightarrow> ''undefined'' | Some str \<Rightarrow> str)"

definition dquote :: string where
  \<open>dquote = ''"''\<close>

text \<open>\<open>str.replaceAll("#", "")\<close>.\<close>

definition strip_hash :: "string \<Rightarrow> string" where
  "strip_hash str = filter (\<lambda>ch. ch \<noteq> CHR ''#'') str"

section \<open>The serpentine encoder\<close>

text \<open>
  The composable of \<open>Controls.vue\<close> computes \<open>formattedColors\<close> with a loop over the rows
  \<open>y = 0, ..., gridHeight - 1\<close> that appends each row, reversed when \<open>y % 2 !== 0\<close>, to the
  array \<open>serpentine\<close>. \<open>serpentine_step\<close> is the loop body and \<open>serpentine\<close> the loop.
\<close>

definition serpentine_step :: "nat \<Rightarrow> 'a list \<Rightarrow> nat \<Rightarrow> 'a list \<Rightarrow> 'a list" where
  "serpentine_step w pixels y serp =
     (let rowStart = y * w;
          rowEnd = rowStart + w;
          rowColors = js_slice pixels rowStart rowEnd;
          isReversedRow = (y mod 2 \<noteq> 0)
      in if isReversedRow then serp @ rev rowColors else serp @ rowColors)"

definition serpentine :: "nat \<Rightarrow> nat \<Rightarrow> 'a list \<Rightarrow> 'a list" where
  "serpentine w h pixels = fold (serpentine_step w pixels) [0..<h] []"

text \<open>
  The string made of the reordered cells. It is \<open>None\<close> when one of them is not a colour:
  the source then prints \<open>"undefined"\<close> or, for a hole in an even row, nothing.
\<close>

definition formattedColors :: "nat \<Rightarrow> nat \<Rightarrow> cell list \<Rightarrow> string option" where
  "formattedColors w h pixels =
     (if None \<in> set (serpentine w h pixels) then None
      else Some (strip_hash (js_join '','' (map (\<lambda>color. dquote @ template color @ dquote)
                                               (serpentine w h pixels)))))"

text \<open>
  The specification's wording of the same encoder: for each row \<open>y\<close> take
  \<open>cells[y*width : y*width+width]\<close>, reverse it if \<open>y\<close> is odd, and concatenate all rows.
\<close>

definition serpentine_spec :: "nat \<Rightarrow> nat \<Rightarrow> 'a list \<Rightarrow> 'a list" where
  "serpentine_spec w h cells =
     concat (map (\<lambda>y. let row = take w (drop (y * w) cells)
                       in if odd y then rev row else row) [0..<h])"

section \<open>The gradient field\<close>

text \<open>
  \<open>GradientGenerator.vue\<close> computes with JavaScript numbers. They are modelled by real
  numbers, with \<open>Math.cos\<close>, \<open>Math.sin\<close> and \<open>Math.sqrt\<close> as the real functions; where the
  source would compute with \<open>NaN\<close> or an infinity (a grid of width or height 1, where
  \<open>0 / 0\<close> is taken, or a scale of 0) the source still returns strings, such as
  \<open>#NaNNaNNaN\<close>, and the model gives \<open>NaN_arithmetic\<close> instead of a value.
  \<open>Math.round\<close> rounds to the nearest integer, a tie going up.

  The real numbers are exact where the doubles of the source are rounded: the cosine of
  a right angle is 0 here and about \<open>6e-17\<close> there, and a product such as
  \<open>factor * (c2 - c1)\<close> can fall on the other side of a tie, so that a colour inside the
  ramp may differ by one in a channel. The properties below are stated at angle 0, at
  scale 100, at the ends of the ramp and at the midpoint 127.5, where every number of
  the source is exact.
\<close>

datatype failure = TypeError | NaN_arithmetic

definition Math_round :: "real \<Rightarrow> int" where
  "Math_round v = \<lfloor>v + 1 / 2\<rfloor>"

text \<open>
  \<open>parseInt(str, 16)\<close> on the two-character pieces of a colour \<open>#rrggbb\<close>: the value of
  the longest prefix of hexadecimal digits, \<open>NaN\<close> (here \<open>None\<close>) when there is none. Colours
  come from colour inputs and carry no sign, blank or \<open>0x\<close> prefix, which are not modelled.
\<close>

definition hexval :: "char \<Rightarrow> nat option" where
  "hexval ch =
     (let n = of_char ch :: nat in
      if 48 \<le> n \<and> n \<le> 57 then Some (n - 48)
      else if 97 \<le> n \<and> n \<le> 102 then Some (n - 87)
      else if 65 \<le> n \<and> n \<le> 70 then Some (n - 55)
      else None)"

fun parseHexDigits :: "nat \<Rightarrow> string \<Rightarrow> nat" where
  "parseHexDigits acc [] = acc"
| "parseHexDigits acc (ch # rest) =
     (case hexval ch of
        None \<Rightarrow> acc
      | Some d \<Rightarrow> parseHexDigits (16 * acc + d) rest)"

definition parseInt16 :: "string \<Rightarrow> nat option" where
  "parseInt16 str =
     (case str of
        [] \<Rightarrow> None
      | ch # rest \<Rightarrow>
          (case hexval ch of None \<Rightarrow> None | Some d \<Rightarrow> Some (parseHexDigits d rest)))"

text \<open>\<open>str.substring(a, b)\<close> for \<open>a \<le> b\<close>.\<close>

definition substring :: "string \<Rightarrow> nat \<Rightarrow> nat \<Rightarrow> string" where
  "substring str a b = take (b - a) (drop a str)"

definition hexchar :: "nat \<Rightarrow> char" where
  "hexchar d = ''0123456789abcdef'' ! (d mod 16)"

fun hexDigits :: "nat \<Rightarrow> string" where
  "hexDigits n =
     (if n < 16 then [hexchar n] else hexDigits (n div 16) @ [hexchar (n mod 16)])"

declare hexDigits.simps [simp del]

text \<open>\<open>n.toString(16)\<close> of an integer or \<open>NaN\<close>, and \<open>str.padStart(2, "0")\<close>.\<close>

definition toString16 :: "int option \<Rightarrow> string" where
  "toString16 v =
     (case v of
        None \<Rightarrow> ''NaN''
      | Some n \<Rightarrow> if n < 0 then ''-'' @ hexDigits (nat (- n)) else hexDigits (nat n))"

definition padStart2 :: "string \<Rightarrow> string" where
  "padStart2 str = replicate (2 - length str) (CHR ''0'') @ str"

text \<open>One channel of \<open>interpolateColor\<close>: \<open>Math.round(c1 + factor * (c2 - c1))\<close>.\<close>

definition mix :: "nat option \<Rightarrow> nat option \<Rightarrow> real \<Rightarrow> int option" where
  "mix c1 c2 factor =
     (case (c1, c2) of
        (Some v1, Some v2) \<Rightarrow> Some (Math_round (real v1 + factor * (real v2 - real v1)))
      | _ \<Rightarrow> None)"

definition interpolateColor :: "string \<Rightarrow> string \<Rightarrow> real \<Rightarrow> string" where
  "interpolateColor color1 color2 factor =
     (let r1 = parseInt16 (substring color1 1 3);
          g1 = parseInt16 (substring color1 3 5);
          b1 = parseInt16 (substring color1 5 7);
          r2 = parseInt16 (substring color2 1 3);
          g2 = parseInt16 (substring color2 3 5);
          b2 = parseInt16 (substring color2 5 7);
          r = mix r1 r2 factor;
          g = mix g1 g2 factor;
          b = mix b1 b2 factor
      in ''#'' @ padStart2 (toString16 r) @ padStart2 (toString16 g) @ padStart2 (toString16 b))"

record ColorStop =
  color :: string
  position :: real

text \<open>
  The search loop of \<open>getColorAtPosition\<close>: the first \<open>i\<close> with
  \<open>sorted[i].position \<le> position \<le> sorted[i + 1].position\<close>, if there is one.
\<close>

fun findStartIndex :: "ColorStop list \<Rightarrow> real \<Rightarrow> nat \<Rightarrow> nat option" where
  "findStartIndex (a # b # rest) pos i =
     (if pos \<ge> position a \<and> pos \<le> position b then Some i
      else findStartIndex (b # rest) pos (i + 1))"
| "findStartIndex _ pos i = None"

text \<open>
  \<open>getColorAtPosition\<close> sorts a copy of the stops by position (the sort is stable) and
  evaluates the ramp. Reading \<open>sorted[0]\<close> of an empty list of stops, or a stop after the
  last one, raises a \<open>TypeError\<close> in the source: the result is \<open>None\<close> there.
\<close>

definition getColorAtPosition :: "ColorStop list \<Rightarrow> real \<Rightarrow> string option" where
  "getColorAtPosition stops pos =
     (let sorted = sort_key position stops in
      case sorted of
        [] \<Rightarrow> None
      | first # _ \<Rightarrow>
          if pos \<le> position first then Some (color first)
          else if pos \<ge> position (last sorted) then Some (color (last sorted))
          else
            (let startIndex = (case findStartIndex sorted pos 0 of Some i \<Rightarrow> i | None \<Rightarrow> 0)
             in if startIndex + 1 < length sorted then
                  (let start = sorted ! startIndex;
                       end = sorted ! (startIndex + 1);
                       factor = (pos - position start) / (position end - position start)
                   in Some (interpolateColor (color start) (color end) factor))
                else None))"

datatype GradientType = Linear | Radial | Elliptical

record Gradient =
  gradientType :: GradientType
  customAngle :: real
  centerX :: real
  centerY :: real
  ellipticalRotation :: real
  scaleValue :: real
  colorStops :: "ColorStop list"

text \<open>
  The angle handed to the CSS preview of the gradient, and to nothing else. The
  remainder \<open>%\<close> of JavaScript has the sign of the dividend.
\<close>

definition js_rem :: "int \<Rightarrow> int \<Rightarrow> int" where
  "js_rem a b = (if a < 0 then - ((- a) mod \<bar>b\<bar>) else a mod \<bar>b\<bar>)"

definition convertAngleToCss :: "int \<Rightarrow> int" where
  "convertAngleToCss angle = js_rem (angle + 90 + 360) 360"

text \<open>
  The linear branch of the colour computation in \<open>calculateOptimizedPixels\<close>: the scaled
  point is projected on the unit vector at \<open>customAngle\<close> itself.
\<close>

definition linearPosition :: "real \<Rightarrow> real \<Rightarrow> real \<Rightarrow> real" where
  "linearPosition angle scaledX scaledY =
     (let angleRad = (angle * pi) / 180;
          angleVector = (cos angleRad, sin angleRad);
          pos = (scaledX * fst angleVector + scaledY * snd angleVector) * 100;
          adjustedPosition = max 0 (min 100 pos)
      in adjustedPosition)"

definition radialDistance :: "Gradient \<Rightarrow> nat \<Rightarrow> nat \<Rightarrow> real \<Rightarrow> real \<Rightarrow> real" where
  "radialDistance g width height scaledX scaledY =
     (let centerXNorm = centerX g / 100;
          centerYNorm = centerY g / 100;
          dx0 = scaledX - centerXNorm;
          dy0 = scaledY - centerYNorm;
          aspectRatio = real width / real height;
          dx1 = dx0 * aspectRatio;
          (dx, dy) =
            (if gradientType g = Elliptical then
               (let (dx2, dy2) =
                      (if ellipticalRotation g \<noteq> 0 then
                         (let rotationRad = (ellipticalRotation g * pi) / 180;
                              rotatedDx = dx1 * cos rotationRad - dy0 * sin rotationRad;
                              rotatedDy = dx1 * sin rotationRad + dy0 * cos rotationRad
                          in (rotatedDx, rotatedDy))
                       else (dx1, dy0))
                in (dx2, dy2 * 2))
             else (dx1, dy0));
          maxDistanceX = max centerXNorm (1 - centerXNorm) * aspectRatio;
          maxDistanceY = max centerYNorm (1 - centerYNorm);
          maxDistance = sqrt (maxDistanceX * maxDistanceX + maxDistanceY * maxDistanceY);
          distance = (sqrt (dx * dx + dy * dy) / maxDistance) * 100
      in distance)"

text \<open>
  The function handed to the cache for one pixel: the colour of the scaled point
  \<open>(scaledX, scaledY)\<close>.
\<close>

definition calcFunc ::
  "Gradient \<Rightarrow> nat \<Rightarrow> nat \<Rightarrow> real \<Rightarrow> real \<Rightarrow> bool \<Rightarrow> string option" where
  "calcFunc g width height scaledX scaledY isOutsideRange =
     (if isOutsideRange then
        (if gradientType g = Linear then
           getColorAtPosition (colorStops g) (linearPosition (customAngle g) scaledX scaledY)
         else getColorAtPosition (colorStops g) 100)
      else if gradientType g = Linear then
        getColorAtPosition (colorStops g) (linearPosition (customAngle g) scaledX scaledY)
      else
        getColorAtPosition (colorStops g)
          (min (radialDistance g width height scaledX scaledY) 100))"

text \<open>The scaled point of the pixel in column \<open>x\<close> of row \<open>y\<close> (\<open>skipFactor\<close> is always 1).\<close>

definition scaledXY :: "Gradient \<Rightarrow> nat \<Rightarrow> nat \<Rightarrow> nat \<Rightarrow> nat \<Rightarrow> real \<times> real" where
  "scaledXY g width height x y =
     (let skipFactor = 1;
          scaleFactor = scaleValue g / 100;
          originalX = min (real x * skipFactor) (real width - 1);
          originalY = min (real y * skipFactor) (real height - 1);
          normalizedX = originalX / (real width - 1);
          normalizedY = originalY / (real height - 1);
          centerXNorm = 1 / 2;
          centerYNorm = 1 / 2;
          scaledX = centerXNorm + (normalizedX - centerXNorm) / scaleFactor;
          scaledY = centerYNorm + (normalizedY - centerYNorm) / scaleFactor
      in (scaledX, scaledY))"

definition outsideRange :: "real \<times> real \<Rightarrow> bool" where
  "outsideRange p =
     (case p of (scaledX, scaledY) \<Rightarrow> scaledX < 0 \<or> scaledX > 1 \<or> scaledY < 0 \<or> scaledY > 1)"

definition mapped :: "bool \<Rightarrow> real \<Rightarrow> nat \<Rightarrow> int" where
  "mapped isOutsideRange scaled extent =
     (if isOutsideRange then (if scaled < 0 then 0 else int extent - 1)
      else min (max 0 (Math_round (scaled * (real extent - 1)))) (int extent - 1))"

text \<open>
  The colour computed for the pixel in column \<open>x\<close> of row \<open>y\<close> when the cache does not hold
  its key. On a grid of width or height 1, or at scale 0, the coordinates above are not
  numbers in the source.
\<close>

definition pixelColor :: "Gradient \<Rightarrow> nat \<Rightarrow> nat \<Rightarrow> nat \<Rightarrow> nat \<Rightarrow> failure + string" where
  "pixelColor g width height x y =
     (if width < 2 \<or> height < 2 \<or> scaleValue g = 0 then Inl NaN_arithmetic
      else
        (let p = scaledXY g width height x y
         in case calcFunc g width height (fst p) (snd p) (outsideRange p) of
              None \<Rightarrow> Inl TypeError
            | Some c \<Rightarrow> Inr c))"

text \<open>
  The cache is a JavaScript \<open>Map\<close>, which keeps its keys in insertion order: an
  association list with the oldest entry first. A key is the tuple of the values that
  the source joins into the key string.
\<close>

type_synonym cacheKey =
  "GradientType \<times> int \<times> int \<times> real \<times> real \<times> real \<times> real \<times> real"

type_synonym colorCache = "(cacheKey \<times> string) list"

definition getColorFromCache ::
  "cacheKey \<Rightarrow> failure + string \<Rightarrow> colorCache \<Rightarrow> failure + (string \<times> colorCache)" where
  "getColorFromCache key calc cache =
     (case map_of cache key of
        Some hit \<Rightarrow> Inr (hit, cache)
      | None \<Rightarrow>
          (case calc of
             Inl e \<Rightarrow> Inl e
           | Inr v \<Rightarrow>
               (let cache1 = cache @ [(key, v)];
                    cache2 = (if length cache1 > 5000 then drop 2500 cache1 else cache1)
                in Inr (v, cache2))))"

definition cacheKeyOf :: "Gradient \<Rightarrow> nat \<Rightarrow> nat \<Rightarrow> nat \<Rightarrow> nat \<Rightarrow> cacheKey" where
  "cacheKeyOf g width height x y =
     (let p = scaledXY g width height x y;
          mappedX = mapped (outsideRange p) (fst p) width;
          mappedY = mapped (outsideRange p) (snd p) height
      in (gradientType g, mappedX, mappedY, customAngle g, centerX g, centerY g,
          ellipticalRotation g, scaleValue g))"

text \<open>One pass of the inner loop for the pixel \<open>(y, x)\<close>, and the two nested loops.\<close>

definition pixelStep ::
  "Gradient \<Rightarrow> nat \<Rightarrow> nat \<Rightarrow> nat \<times> nat \<Rightarrow>
   failure + (string list \<times> colorCache) \<Rightarrow> failure + (string list \<times> colorCache)" where
  "pixelStep g width height yx acc =
     (case acc of
        Inl e \<Rightarrow> Inl e
      | Inr (optimizedPixels, cache) \<Rightarrow>
          (case getColorFromCache (cacheKeyOf g width height (snd yx) (fst yx))
                  (pixelColor g width height (snd yx) (fst yx)) cache of
             Inl e \<Rightarrow> Inl e
           | Inr (c, cache') \<Rightarrow> Inr (optimizedPixels @ [c], cache')))"

definition calculateOptimizedPixels ::
  "Gradient \<Rightarrow> colorCache \<Rightarrow> nat \<Rightarrow> nat \<Rightarrow> failure + (string list \<times> colorCache)" where
  "calculateOptimizedPixels g cache width height =
     (if width = 0 \<or> height = 0 then Inr ([], cache)
      else if width = 1 \<or> height = 1 \<or> scaleValue g = 0 then Inl NaN_arithmetic
      else fold (pixelStep g width height)
             (concat (map (\<lambda>y. map (\<lambda>x. (y, x)) [0..<width]) [0..<height]))
             (Inr ([], cache)))"

definition gradientPixels ::
  "Gradient \<Rightarrow> colorCache \<Rightarrow> nat \<Rightarrow> nat \<Rightarrow> failure + string list" where
  "gradientPixels g cache width height =
     (case calculateOptimizedPixels g cache width height of
        Inl e \<Rightarrow> Inl e
      | Inr (pixels, _) \<Rightarrow> Inr pixels)"

text \<open>The two stops red at 0 and blue at 100, and a linear gradient at angle 0 over them.\<close>

definition redBlue :: "ColorStop list" where
  "redBlue = [\<lparr>color = ''#ff0000'', position = 0\<rparr>, \<lparr>color = ''#0000ff'', position = 100\<rparr>]"

definition linear0 :: Gradient where
  "linear0 = \<lparr>gradientType = Linear, customAngle = 0, centerX = 50, centerY = 50,
              ellipticalRotation = 0, scaleValue = 100, colorStops = redBlue\<rparr>"

section \<open>The editor's store\<close>

text \<open>
  The composable \<open>useWledDraw\<close> exists in three variants. The one modelled here is the
  fullest, with the debounced sending, the batch update and \<open>applyPixelArray\<close>; the plainer
  TypeScript variant has the same \<open>saveToHistory\<close>, \<open>undo\<close>, \<open>clearScreen\<close> and \<open>setupGrid\<close>
  and an \<open>updatePixel\<close> that differs only in not setting \<open>pixelDataChanged\<close>, which is
  \<open>updatePixel_basic\<close> below.

  The state holds the refs of the composable that the operations read or write, the two
  keys of \<open>localStorage\<close> that \<open>setupGrid\<close> reads back (\<open>ls_pixelData\<close> is the stored string,
  empty when the key is absent; \<open>ls_drawHistory\<close> is the stored log, \<open>JSON.stringify\<close>
  followed by \<open>JSON.parse\<close> being taken as the identity), and the browser's side of the
  timers and requests: the handles of the time-outs that have not fired yet, the number
  of animation-frame callbacks that are queued, the bodies of the POST requests issued so
  far, oldest first, and the number of responses still awaited. The refs that no
  operation below reads (\<open>loading\<close>, \<open>error\<close>, the colour palette) and the delay
  \<open>debounceDelay\<close>, which only sets the duration of the time-out, are left out. Time
  itself is not modelled: the expiry of a time-out, an animation frame and the arrival
  of a response are events that the environment may raise in any order allowed by these
  queues.
\<close>

datatype HistoryAction = DrawAction nat cell | ClearAction "cell list"

record store =
  gridWidth :: nat
  gridHeight :: nat
  pixelData :: "cell list"
  history :: "HistoryAction list"
  ignoreApi :: bool
  debounceTimer :: "nat option"
  isUpdatePending :: bool
  pixelDataChanged :: bool
  ls_pixelData :: string
  ls_drawHistory :: "HistoryAction list option"
  timeouts :: "nat list"
  nextHandle :: nat
  frames :: nat
  posted :: "string option list"
  awaited :: nat

definition maxHistoryLength :: nat where
  "maxHistoryLength = 50"

definition black :: string where
  "black = ''#000000''"

text \<open>\<open>value || "#000000"\<close>: \<open>undefined\<close> and the empty string are falsy.\<close>

definition orBlack :: "cell \<Rightarrow> string" where
  "orBlack v = (case v of None \<Rightarrow> black | Some str \<Rightarrow> if str = [] then black else str)"

text \<open>
  This variant sends the cells in row-major order. The result is \<open>None\<close> when a cell is
  not a colour: the source prints black for \<open>undefined\<close> and nothing for a hole, which
  the model does not tell apart. A request whose body is \<open>None\<close> is a request that is
  sent with a body the model does not give.
\<close>

definition formattedColors_rowMajor :: "cell list \<Rightarrow> string option" where
  "formattedColors_rowMajor pixels =
     (if None \<in> set pixels then None
      else Some (strip_hash (js_join '','' (map (\<lambda>c. dquote @ orBlack c @ dquote) pixels))))"

definition wledJson :: "store \<Rightarrow> string option" where
  \<open>wledJson s =
     (case formattedColors_rowMajor (pixelData s) of
        None \<Rightarrow> None
      | Some colors \<Rightarrow>
          Some (''{"on": true,"bri": 230, "v": true, "seg": {"i":['' @ colors @ '']}}''))\<close>

text \<open>\<open>pixelData.value.toString()\<close>: the cells joined by commas, \<open>undefined\<close> as nothing.\<close>

definition toString :: "cell list \<Rightarrow> string" where
  "toString pixels =
     js_join '','' (map (\<lambda>v. case v of None \<Rightarrow> [] | Some str \<Rightarrow> str) pixels)"

definition saveToLocalStorage :: "store \<Rightarrow> store" where
  "saveToLocalStorage s = s\<lparr>ls_pixelData := toString (pixelData s)\<rparr>"

definition loadHistoryFromStorage :: "store \<Rightarrow> store" where
  "loadHistoryFromStorage s =
     (case ls_drawHistory s of None \<Rightarrow> s | Some h \<Rightarrow> s\<lparr>history := h\<rparr>)"

definition saveToHistory :: "HistoryAction \<Rightarrow> store \<Rightarrow> store" where
  "saveToHistory action s =
     (let pushed = history s @ [action];
          kept = (if length pushed > maxHistoryLength then tl pushed else pushed)
      in s\<lparr>history := kept, ls_drawHistory := Some kept\<rparr>)"

text \<open>
  \<open>sendToWledImmediate\<close> issues the request with the payload of the current state; the
  response comes later, as one of the two events \<open>responseOk\<close> and \<open>responseFailed\<close>.
\<close>

definition sendToWledImmediate :: "store \<Rightarrow> store" where
  "sendToWledImmediate s =
     (if ignoreApi s then s
      else s\<lparr>posted := posted s @ [wledJson s], awaited := awaited s + 1\<rparr>)"

definition responseOk :: "store \<Rightarrow> store" where
  "responseOk s =
     (if awaited s = 0 then s
      else s\<lparr>awaited := awaited s - 1, pixelDataChanged := False\<rparr>)"


definition debouncedSendToWled :: "store \<Rightarrow> store" where
  "debouncedSendToWled s =
     (if ignoreApi s then s
      else
        (let s1 = s\<lparr>pixelDataChanged := True\<rparr>
         in if debounceTimer s1 \<noteq> None then s1
            else s1\<lparr>debounceTimer := Some (nextHandle s1),
                     timeouts := timeouts s1 @ [nextHandle s1],
                     nextHandle := nextHandle s1 + 1\<rparr>))"

text \<open>
  The callback given to \<open>setTimeout\<close>, run when the time-out with the given handle
  expires, and the callback it gives to \<open>requestAnimationFrame\<close>.
\<close>

definition timerCallback :: "nat \<Rightarrow> store \<Rightarrow> store" where
  "timerCallback handle s =
     (if handle \<notin> set (timeouts s) then s
      else
        (let s1 = s\<lparr>timeouts := removeAll handle (timeouts s)\<rparr>
         in if pixelDataChanged s1
            then s1\<lparr>isUpdatePending := True, frames := frames s1 + 1\<rparr>
            else s1\<lparr>debounceTimer := None\<rparr>))"

definition frameCallback :: "store \<Rightarrow> store" where
  "frameCallback s =
     (if frames s = 0 then s
      else
        (let s1 = sendToWledImmediate (s\<lparr>frames := frames s - 1\<rparr>)
         in s1\<lparr>isUpdatePending := False, debounceTimer := None\<rparr>))"


text \<open>What \<open>undo\<close> does to the pixel buffer for the action it has popped.\<close>

definition undoAction :: "HistoryAction \<Rightarrow> cell list \<Rightarrow> cell list" where
  "undoAction lastAction pixels =
     (case lastAction of
        DrawAction index previous \<Rightarrow> js_set pixels index previous
      | ClearAction pixels' \<Rightarrow> pixels')"

definition undo :: "store \<Rightarrow> store" where
  "undo s =
     (if length (history s) = 0 then s
      else
        (let lastAction = last (history s);
             popped = butlast (history s);
             s1 = s\<lparr>history := popped, pixelData := undoAction lastAction (pixelData s)\<rparr>;
             s2 = s1\<lparr>ls_drawHistory := Some popped\<rparr>;
             s3 = saveToLocalStorage s2;
             s4 = s3\<lparr>pixelDataChanged := True\<rparr>
         in debouncedSendToWled s4))"

definition clearScreen :: "store \<Rightarrow> store" where
  "clearScreen s =
     (let s1 = saveToHistory (ClearAction (pixelData s)) s;
          s2 = s1\<lparr>pixelData := replicate (gridWidth s1 * gridHeight s1) (Some black)\<rparr>;
          s3 = saveToLocalStorage s2;
          s4 = s3\<lparr>pixelDataChanged := True\<rparr>
      in debouncedSendToWled s4)"

definition setupGrid :: "store \<Rightarrow> store" where
  "setupGrid s =
     (let gridSize = gridWidth s * gridHeight s;
          localData = (if ls_pixelData s \<noteq> [] then js_split_comma (ls_pixelData s) else []);
          filled = map (\<lambda>i. Some (orBlack (if i < length localData then Some (localData ! i)
                                             else None)))
                       [0..<gridSize]
      in loadHistoryFromStorage (s\<lparr>pixelData := filled\<rparr>))"

definition updatePixel :: "nat \<Rightarrow> string \<Rightarrow> store \<Rightarrow> store" where
  "updatePixel index newColor s =
     (if js_get (pixelData s) index = Some newColor then s
      else
        (let s1 = saveToHistory (DrawAction index (js_get (pixelData s) index)) s;
             s2 = s1\<lparr>pixelData := js_set (pixelData s1) index (Some newColor)\<rparr>;
             s3 = s2\<lparr>pixelDataChanged := True\<rparr>
         in saveToLocalStorage s3))"

definition updatePixel_basic :: "nat \<Rightarrow> string \<Rightarrow> store \<Rightarrow> store" where
  "updatePixel_basic index newColor s =
     (if js_get (pixelData s) index = Some newColor then s
      else
        (let s1 = saveToHistory (DrawAction index (js_get (pixelData s) index)) s;
             s2 = s1\<lparr>pixelData := js_set (pixelData s1) index (Some newColor)\<rparr>
         in saveToLocalStorage s2))"

text \<open>The body of the \<open>forEach\<close> of \<open>batchUpdatePixels\<close>, and the function itself.\<close>

definition batchStep :: "string \<Rightarrow> nat \<Rightarrow> store \<Rightarrow> store" where
  "batchStep newColor index s =
     (if index < length (pixelData s) \<and> js_get (pixelData s) index \<noteq> Some newColor then
        (let s1 = saveToHistory (DrawAction index (js_get (pixelData s) index)) s
         in s1\<lparr>pixelData := js_set (pixelData s1) index (Some newColor)\<rparr>)
      else s)"

definition batchUpdatePixels :: "nat list \<Rightarrow> string \<Rightarrow> store \<Rightarrow> store" where
  "batchUpdatePixels indices newColor s =
     (let s1 = fold (batchStep newColor) indices s;
          s2 = s1\<lparr>pixelDataChanged := True\<rparr>;
          s3 = saveToLocalStorage s2
      in debouncedSendToWled s3)"

definition applyPixelArray :: "string list \<Rightarrow> store \<Rightarrow> store" where
  "applyPixelArray newPixels s =
     (if length newPixels = 0 \<or> length newPixels \<noteq> length (pixelData s) then s
      else
        (let s1 = saveToHistory (ClearAction (pixelData s)) s;
             s2 = s1\<lparr>pixelData := map Some newPixels\<rparr>;
             s3 = s2\<lparr>pixelDataChanged := True\<rparr>;
             s4 = saveToLocalStorage s3
         in debouncedSendToWled s4))"

text \<open>
  A change of the grid's dimensions: the watcher on \<open>gridWidth\<close> and \<open>gridHeight\<close> runs
  \<open>setupGrid\<close> when one of them has a new value.
\<close>

definition resize :: "nat \<Rightarrow> nat \<Rightarrow> store \<Rightarrow> store" where
  "resize w h s =
     (if w = gridWidth s \<and> h = gridHeight s then s
      else setupGrid (s\<lparr>gridWidth := w, gridHeight := h\<rparr>))"


text \<open>The state in which the composable is created, and a 2x2 grid set up from it.\<close>

definition initialStore :: store where
  "initialStore =
     \<lparr>gridWidth = 14, gridHeight = 20, pixelData = [], history = [], ignoreApi = False,
      debounceTimer = None, isUpdatePending = False, pixelDataChanged = False,
      ls_pixelData = [], ls_drawHistory = None, timeouts = [], nextHandle = 1, frames = 0,
      posted = [], awaited = 0\<rparr>"

definition grid2x2 :: store where
  "grid2x2 = setupGrid (initialStore\<lparr>gridWidth := 2, gridHeight := 2\<rparr>)"

text \<open>
  The calls that the user interface makes on the store, as events, and a run of them.
\<close>

datatype call =
    ScheduleSend
  | UpdatePixel nat string
  | BatchUpdatePixels "nat list" string
  | ApplyPixelArray "string list"
  | ClearScreen
  | Undo
  | SetDimensions nat nat

fun perform :: "call \<Rightarrow> store \<Rightarrow> store" where
  "perform ScheduleSend s = debouncedSendToWled s"
| "perform (UpdatePixel index newColor) s = updatePixel index newColor s"
| "perform (BatchUpdatePixels indices newColor) s = batchUpdatePixels indices newColor s"
| "perform (ApplyPixelArray newPixels) s = applyPixelArray newPixels s"
| "perform ClearScreen s = clearScreen s"
| "perform Undo s = undo s"
| "perform (SetDimensions w h) s = resize w h s"

definition run :: "call list \<Rightarrow> store \<Rightarrow> store" where
  "run calls s = fold perform calls s"




text \<open>
  The log and its stored copy hold at most \<open>maxHistoryLength\<close> actions.
\<close>

definition historyBounded :: "store \<Rightarrow> bool" where
  "historyBounded s \<longleftrightarrow>
     length (history s) \<le> maxHistoryLength \<and>
     (case ls_drawHistory s of None \<Rightarrow> True | Some h \<Rightarrow> length h \<le> maxHistoryLength)"

text \<open>
  Three stages of one debounce window, for the time-out handle \<open>h\<close> and the requests
  \<open>sent\<close> before it: no timer is running; the timer \<open>h\<close> is running and a change is
  pending; the timer has expired and its animation frame is queued.
\<close>

definition idle :: "nat \<Rightarrow> string option list \<Rightarrow> store \<Rightarrow> bool" where
  "idle h sent s \<longleftrightarrow>
     \<not> ignoreApi s \<and> frames s = 0 \<and> posted s = sent \<and> debounceTimer s = None \<and>
     timeouts s = [] \<and> nextHandle s = h"



section \<open>Properties of the serpentine encoder\<close>

lemma serpentine_fold_acc:
  "fold (serpentine_step w pixels) [0..<h] acc = acc @ serpentine_spec w h pixels"
  by (induction h arbitrary: acc)
     (simp_all add: serpentine_spec_def serpentine_step_def js_slice_def Let_def odd_iff_mod_2_eq_one)

lemma serpentine_refines_spec: "serpentine w h pixels = serpentine_spec w h pixels"
  by (simp add: serpentine_def serpentine_fold_acc)

lemma nth_concat_rows:
  "\<forall>r \<in> set rows. length r = w \<Longrightarrow> y < length rows \<Longrightarrow> x < w \<Longrightarrow>
   concat rows ! (y * w + x) = rows ! y ! x"
proof (induction rows arbitrary: y)
  case Nil
  then show ?case by simp
next
  case (Cons r rows)
  show ?case
  proof (cases y)
    case 0
    with Cons.prems show ?thesis by (simp add: nth_append)
  next
    case (Suc k)
    with Cons.prems have "concat rows ! (k * w + x) = rows ! k ! x"
      by (intro Cons.IH) auto
    with Cons.prems Suc show ?thesis by (simp add: nth_append)
  qed
qed

lemma length_concat_rows:
  "\<forall>r \<in> set rows. length r = w \<Longrightarrow> length (concat rows) = length rows * w"
  by (induction rows) simp_all

lemma row_in_grid:
  assumes "length cells = w * h" and "y < h"
  shows "y * w + w \<le> length cells"
proof -
  from assms(2) have "Suc y \<le> h" by simp
  then have "Suc y * w \<le> h * w" by (rule mult_le_mono1)
  with assms(1) show ?thesis by (simp add: mult.commute)
qed

lemma serpentine_spec_row_length:
  assumes "length cells = w * h" and "y < h"
  shows "length (let row = take w (drop (y * w) cells) in if odd y then rev row else row) = w"
  using row_in_grid [OF assms] by (simp add: Let_def)

lemma serpentine_spec_length:
  assumes "length cells = w * h"
  shows "length (serpentine_spec w h cells) = w * h"
proof -
  let ?f = "\<lambda>y. let row = take w (drop (y * w) cells) in if odd y then rev row else row"
  have "\<forall>r \<in> set (map ?f [0..<h]). length r = w"
    using serpentine_spec_row_length [OF assms] by auto
  then have "length (concat (map ?f [0..<h])) = length (map ?f [0..<h]) * w"
    by (rule length_concat_rows)
  then show ?thesis by (simp add: serpentine_spec_def mult.commute)
qed

lemma serpentine_spec_nth:
  assumes len: "length cells = w * h" and y: "y < h" and x: "x < w"
  shows "serpentine_spec w h cells ! (y * w + x) =
         cells ! (y * w + (if odd y then w - 1 - x else x))"
proof -
  let ?f = "\<lambda>y. let row = take w (drop (y * w) cells) in if odd y then rev row else row"
  have rows: "\<forall>r \<in> set (map ?f [0..<h]). length r = w"
    using serpentine_spec_row_length [OF len] by auto
  have "serpentine_spec w h cells ! (y * w + x) = map ?f [0..<h] ! y ! x"
    unfolding serpentine_spec_def using y x by (intro nth_concat_rows [OF rows]) simp_all
  also have "\<dots> = ?f y ! x" using y by simp
  also have "\<dots> = cells ! (y * w + (if odd y then w - 1 - x else x))"
    using row_in_grid [OF len y] x by (simp add: Let_def rev_nth)
  finally show ?thesis .
qed

lemma formattedColors_2x2:
  \<open>formattedColors 2 2 [Some ''#ff0000'', Some ''#00ff00'', Some ''#0000ff'', Some ''#ffffff'']
   = Some ''"ff0000","00ff00","ffffff","0000ff"''\<close>
  by (simp add: formattedColors_def serpentine_def serpentine_step_def js_slice_def Let_def upt_rec
      strip_hash_def dquote_def template_def)

text \<open>
  C1. For every grid of width \<open>w\<close> and height \<open>h\<close> whose cells are in row-major order, the
  encoder's loop produces the rows one after the other, each odd-indexed row reversed and
  each even-indexed row as it is: the output is the concatenation the specification
  describes, it has \<open>w * h\<close> entries, and its entry at position \<open>x\<close> of row \<open>y\<close> is the cell at
  position \<open>w - 1 - x\<close> of row \<open>y\<close> when \<open>y\<close> is odd and the cell at position \<open>x\<close> when \<open>y\<close> is
  even. The 2x2 grid red, green, blue, white is sent as red, green, white, blue. (The
  string that \<open>formattedColors\<close> makes of it is evaluated in the lemma above.)
\<close>

theorem serpentine_rows:
  "serpentine w h cells = serpentine_spec w h cells
   \<and> (length cells = w * h \<longrightarrow>
        length (serpentine w h cells) = w * h
        \<and> (\<forall>y < h. \<forall>x < w.
             serpentine w h cells ! (y * w + x) =
             cells ! (y * w + (if odd y then w - 1 - x else x))))
   \<and> serpentine 2 2 [''#ff0000'', ''#00ff00'', ''#0000ff'', ''#ffffff'']
       = [''#ff0000'', ''#00ff00'', ''#ffffff'', ''#0000ff'']"
proof (intro conjI impI allI)
  show "serpentine w h cells = serpentine_spec w h cells"
    by (rule serpentine_refines_spec)
next
  assume "length cells = w * h"
  then show "length (serpentine w h cells) = w * h"
    by (simp add: serpentine_refines_spec serpentine_spec_length)
next
  fix y x
  assume "length cells = w * h" and "y < h" and "x < w"
  then show "serpentine w h cells ! (y * w + x) =
             cells ! (y * w + (if odd y then w - 1 - x else x))"
    unfolding serpentine_refines_spec by (rule serpentine_spec_nth)
next
  show "serpentine 2 2 [''#ff0000'', ''#00ff00'', ''#0000ff'', ''#ffffff'']
        = [''#ff0000'', ''#00ff00'', ''#ffffff'', ''#0000ff'']"
    by (simp add: serpentine_def serpentine_step_def js_slice_def Let_def upt_rec)
qed

theorem serpentine_rows_witness:
  "length [''a'', ''b'', ''c'', ''d'', ''e'', ''f''] = 3 * 2
   \<and> (1::nat) < 2 \<and> (0::nat) < 3
   \<and> serpentine 3 2 [''a'', ''b'', ''c'', ''d'', ''e'', ''f''] ! (1 * 3 + 0) = ''f''
   \<and> length (serpentine 3 2 [''a'', ''b'', ''c'', ''d'', ''e'', ''f'']) = 6"
proof -
  let ?cells = "[''a'', ''b'', ''c'', ''d'', ''e'', ''f'']"
  have len: "length ?cells = 3 * 2" by simp
  have grid: "length (serpentine 3 2 ?cells) = 3 * 2
     \<and> (\<forall>y < 2. \<forall>x < 3. serpentine 3 2 ?cells ! (y * 3 + x) =
            ?cells ! (y * 3 + (if odd y then 3 - 1 - x else x)))"
    using serpentine_rows [of 3 2 ?cells] len by blast
  then have "serpentine 3 2 ?cells ! (1 * 3 + 0) =
             ?cells ! (1 * 3 + (if odd (1::nat) then 3 - 1 - 0 else 0))"
    by (metis one_less_numeral_iff semiring_norm(76) zero_less_numeral)
  then have "serpentine 3 2 ?cells ! (1 * 3 + 0) = ''f''" by simp
  with len grid show ?thesis by simp
qed

section \<open>Properties of the gradient field\<close>

lemma linearPosition_zero: "linearPosition 0 sx sy = max 0 (min 100 (sx * 100))"
  by (simp add: linearPosition_def)

lemma sorted_stops_nonempty: "stops \<noteq> [] \<Longrightarrow> sort_key position stops \<noteq> []"
  by (metis length_sort list.size(3) length_0_conv)

lemma sorted_hd_least:
  assumes "sorted (map f xs)" and "x \<in> set xs"
  shows "f (hd xs) \<le> f x"
  using assms by (cases xs) auto

lemma sorted_last_greatest:
  assumes "sorted (map f xs)" and "x \<in> set xs"
  shows "f x \<le> f (last xs)"
  using assms by (induction xs) (auto split: if_splits)

lemma stops_hd_least:
  "st \<in> set stops \<Longrightarrow> position (hd (sort_key position stops)) \<le> position st"
  by (rule sorted_hd_least) simp_all

lemma stops_last_greatest:
  "st \<in> set stops \<Longrightarrow> position st \<le> position (last (sort_key position stops))"
  by (rule sorted_last_greatest) simp_all

lemma hd_sorted_in_stops: "stops \<noteq> [] \<Longrightarrow> hd (sort_key position stops) \<in> set stops"
  using sorted_stops_nonempty [of stops] hd_in_set [of "sort_key position stops"] by simp

lemma last_sorted_in_stops: "stops \<noteq> [] \<Longrightarrow> last (sort_key position stops) \<in> set stops"
  using sorted_stops_nonempty [of stops] last_in_set [of "sort_key position stops"] by simp

lemma ramp_at_0:
  assumes "stops \<noteq> []" and "\<forall>st \<in> set stops. 0 \<le> position st"
  shows "getColorAtPosition stops 0 = Some (color (hd (sort_key position stops)))"
proof -
  obtain first rest where s: "sort_key position stops = first # rest"
    using sorted_stops_nonempty [OF assms(1)] by (cases "sort_key position stops") auto
  have "first \<in> set stops" using hd_sorted_in_stops [OF assms(1)] s by simp
  with assms(2) have "0 \<le> position first" by simp
  then show ?thesis by (simp add: getColorAtPosition_def s)
qed

lemma ramp_at_100:
  assumes "stops \<noteq> []" and "\<forall>st \<in> set stops. position st \<le> 100"
    and "\<exists>st \<in> set stops. position st < 100"
  shows "getColorAtPosition stops 100 = Some (color (last (sort_key position stops)))"
proof -
  obtain first rest where s: "sort_key position stops = first # rest"
    using sorted_stops_nonempty [OF assms(1)] by (cases "sort_key position stops") auto
  from assms(3) obtain st where st: "st \<in> set stops" "position st < 100" by blast
  from stops_hd_least [OF st(1)] st(2) s have "\<not> 100 \<le> position first" by simp
  moreover have "position (last (first # rest)) \<le> 100"
    using last_sorted_in_stops [OF assms(1)] assms(2) s by simp
  ultimately show ?thesis unfolding getColorAtPosition_def s
    by (simp del: last.simps)
qed

lemma scaledX_left:
  "2 \<le> width \<Longrightarrow> scaleValue g = 100 \<Longrightarrow> fst (scaledXY g width height 0 y) = 0"
  by (simp add: scaledXY_def Let_def)

lemma scaledX_right:
  "2 \<le> width \<Longrightarrow> scaleValue g = 100 \<Longrightarrow> fst (scaledXY g width height (width - 1) y) = 1"
  by (simp add: scaledXY_def Let_def of_nat_diff)

lemma scaledX_row_free: "fst (scaledXY g width height x y) = fst (scaledXY g width height x y')"
  by (simp add: scaledXY_def Let_def)

lemma calcFunc_linear:
  "gradientType g = Linear \<Longrightarrow>
   calcFunc g width height sx sy out =
   getColorAtPosition (colorStops g) (linearPosition (customAngle g) sx sy)"
  by (simp add: calcFunc_def)

lemma pixelColor_linear_zero:
  assumes "gradientType g = Linear" and "customAngle g = 0"
    and "2 \<le> width" and "2 \<le> height" and "scaleValue g \<noteq> 0"
  shows "pixelColor g width height x y =
         (case getColorAtPosition (colorStops g)
                 (max 0 (min 100 (fst (scaledXY g width height x y) * 100))) of
            None \<Rightarrow> Inl TypeError
          | Some c \<Rightarrow> Inr c)"
  using assms by (simp add: pixelColor_def Let_def calcFunc_linear linearPosition_zero)

lemma findStartIndex_bracket:
  "position (hd xs) \<le> pos \<Longrightarrow> pos \<le> position (last xs) \<Longrightarrow> 2 \<le> length xs \<Longrightarrow>
   \<exists>j. findStartIndex xs pos i = Some j \<and> j + 1 < i + length xs"
proof (induction xs pos i rule: findStartIndex.induct)
  case (1 a b rest pos i)
  show ?case
  proof (cases "pos \<le> position b")
    case True
    with "1.prems" show ?thesis by simp
  next
    case False
    with "1.prems" have rest: "rest \<noteq> []" by (cases rest) auto
    from False have "position (hd (b # rest)) \<le> pos" by simp
    moreover from "1.prems" rest have "pos \<le> position (last (b # rest))" by simp
    moreover from rest have "2 \<le> length (b # rest)" by (cases rest) auto
    ultimately obtain j where
      "findStartIndex (b # rest) pos (i + 1) = Some j" "j + 1 < i + 1 + length (b # rest)"
      using "1.IH" False by blast
    with False show ?thesis by simp
  qed
qed simp_all

lemma ramp_total:
  assumes "stops \<noteq> []"
  shows "\<exists>c. getColorAtPosition stops pos = Some c"
proof -
  obtain first rest where s: "sort_key position stops = first # rest"
    using sorted_stops_nonempty [OF assms] by (cases "sort_key position stops") auto
  show ?thesis
  proof (cases "pos \<le> position first \<or> pos \<ge> position (last (first # rest))")
    case True
    then show ?thesis unfolding getColorAtPosition_def s
      by (cases "pos \<le> position first")
         (simp_all del: last.simps findStartIndex.simps add: Let_def)
  next
    case False
    then have lo: "position (hd (first # rest)) \<le> pos"
      and hi: "pos \<le> position (last (first # rest))" by auto
    from False have "rest \<noteq> []" by (cases rest) auto
    then have len: "2 \<le> length (first # rest)" by (cases rest) auto
    from findStartIndex_bracket [OF lo hi len, of 0] obtain j where
      j: "findStartIndex (first # rest) pos 0 = Some j" "j + 1 < length (first # rest)"
      by auto
    with False show ?thesis unfolding getColorAtPosition_def s
      by (simp del: last.simps findStartIndex.simps add: Let_def)
  qed
qed

lemma Math_round_of_nat: "Math_round (real n) = int n"
  unfolding Math_round_def by (rule floor_unique) simp_all

lemma scaledXY_scale100:
  assumes "2 \<le> width" and "2 \<le> height" and "scaleValue g = 100"
    and "x < width" and "y < height"
  shows "scaledXY g width height x y = (real x / (real width - 1), real y / (real height - 1))"
  using assms by (simp add: scaledXY_def Let_def min_def)

lemma inside_scale100:
  assumes "2 \<le> width" and "2 \<le> height" and "scaleValue g = 100"
    and "x < width" and "y < height"
  shows "\<not> outsideRange (scaledXY g width height x y)"
proof -
  from assms have "0 < real width - 1" "0 < real height - 1"
    "real x \<le> real width - 1" "real y \<le> real height - 1"
    by linarith+
  then have "0 \<le> real x / (real width - 1)" "real x / (real width - 1) \<le> 1"
    "0 \<le> real y / (real height - 1)" "real y / (real height - 1) \<le> 1"
    by simp_all
  then show ?thesis
    by (simp add: scaledXY_scale100 [OF assms] outsideRange_def not_less)
qed

lemma cacheKeyOf_scale100:
  assumes "2 \<le> width" and "2 \<le> height" and "scaleValue g = 100"
    and "x < width" and "y < height"
  shows "cacheKeyOf g width height x y =
         (gradientType g, int x, int y, customAngle g, centerX g, centerY g,
          ellipticalRotation g, scaleValue g)"
proof -
  have mx: "mapped False (real x / (real width - 1)) width = int x"
    using assms by (simp add: mapped_def Math_round_of_nat)
  have my: "mapped False (real y / (real height - 1)) height = int y"
    using assms by (simp add: mapped_def Math_round_of_nat)
  show ?thesis
    unfolding cacheKeyOf_def Let_def
    by (simp only: scaledXY_scale100 [OF assms] inside_scale100 [OF assms, unfolded scaledXY_scale100 [OF assms]]
        fst_conv snd_conv mx my)
qed

text \<open>The pixels of the two nested loops, in the order in which they are computed.\<close>

lemma loop_pixels:
  "concat (map (\<lambda>y. map (\<lambda>x. (y, x)) [0..<width]) [0..<height])
   = List.product [0..<height] [0..<width]"
  by (simp add: product_concat_map)

lemma loop_pixels_nth:
  assumes "y < height" and "x < width"
  shows "List.product [0..<height] [0..<width] ! (y * width + x) = (y, x)"
proof -
  have "y * width + x < height * width"
  proof -
    from assms(1) have "Suc y * width \<le> height * width" by (intro mult_le_mono1) simp
    with assms(2) show ?thesis by simp
  qed
  then show ?thesis using assms by (simp add: product_nth)
qed

lemma fold_pixelStep_fresh:
  assumes "distinct (map (\<lambda>p. cacheKeyOf g w h (snd p) (fst p)) ps)"
    and "\<forall>p \<in> set ps. cacheKeyOf g w h (snd p) (fst p) \<notin> fst ` set cache"
    and "\<forall>p \<in> set ps. \<exists>c. pixelColor g w h (snd p) (fst p) = Inr c"
  shows "\<exists>cs cache'. fold (pixelStep g w h) ps (Inr (acc, cache)) = Inr (acc @ cs, cache') \<and>
           map Inr cs = map (\<lambda>p. pixelColor g w h (snd p) (fst p)) ps"
  using assms
proof (induction ps arbitrary: acc cache)
  case Nil
  then show ?case by simp
next
  case (Cons p ps)
  let ?key = "\<lambda>p. cacheKeyOf g w h (snd p) (fst p)"
  from Cons.prems(3) obtain c where c: "pixelColor g w h (snd p) (fst p) = Inr c" by auto
  from Cons.prems(2) have miss: "map_of cache (?key p) = None"
    by (simp add: map_of_eq_None_iff)
  define cache2 where
    "cache2 = (if length (cache @ [(?key p, c)]) > 5000 then drop 2500 (cache @ [(?key p, c)])
               else cache @ [(?key p, c)])"
  have step: "pixelStep g w h p (Inr (acc, cache)) = Inr (acc @ [c], cache2)"
    by (simp add: pixelStep_def getColorFromCache_def miss c cache2_def Let_def)
  have keys: "fst ` set cache2 \<subseteq> fst ` set cache \<union> {?key p}"
  proof -
    have "set cache2 \<subseteq> set (cache @ [(?key p, c)])"
      unfolding cache2_def using set_drop_subset [of 2500 "cache @ [(?key p, c)]"] by auto
    then show ?thesis by auto
  qed
  have differ: "?key q \<noteq> ?key p" if "q \<in> set ps" for q
  proof -
    define k where "k = ?key"
    from Cons.prems(1) have "k p \<notin> k ` set ps" by (simp add: k_def)
    moreover from that have "k q \<in> k ` set ps" by (rule imageI)
    ultimately have "k q \<noteq> k p" by (cases "k q = k p") simp_all
    then show ?thesis by (simp add: k_def)
  qed
  have fresh: "\<forall>q \<in> set ps. ?key q \<notin> fst ` set cache2"
  proof
    fix q assume q: "q \<in> set ps"
    from q have "?key q \<noteq> ?key p" by (rule differ)
    moreover from q Cons.prems(2) have "?key q \<notin> fst ` set cache" by simp
    ultimately show "?key q \<notin> fst ` set cache2" using keys by blast
  qed
  from Cons.prems(1) have d: "distinct (map ?key ps)" by simp
  from Cons.prems(3) have t: "\<forall>q \<in> set ps. \<exists>c. pixelColor g w h (snd q) (fst q) = Inr c"
    by simp
  from Cons.IH [OF d fresh t, of "acc @ [c]"] obtain cs cache' where
    "fold (pixelStep g w h) ps (Inr (acc @ [c], cache2)) = Inr ((acc @ [c]) @ cs, cache')"
    "map Inr cs = map (\<lambda>p. pixelColor g w h (snd p) (fst p)) ps"
    by blast
  then have "fold (pixelStep g w h) (p # ps) (Inr (acc, cache)) = Inr (acc @ (c # cs), cache')
        \<and> map Inr (c # cs) = map (\<lambda>p. pixelColor g w h (snd p) (fst p)) (p # ps)"
    by (simp add: step c)
  then show ?case by blast
qed

lemma gradientPixels_fresh:
  assumes w: "2 \<le> width" and h: "2 \<le> height" and sc: "scaleValue g = 100"
    and fresh: "\<forall>y < height. \<forall>x < width. cacheKeyOf g width height x y \<notin> fst ` set cache"
    and total: "\<forall>y < height. \<forall>x < width. \<exists>c. pixelColor g width height x y = Inr c"
  shows "\<exists>pixels. gradientPixels g cache width height = Inr pixels \<and>
           length pixels = width * height \<and>
           (\<forall>y < height. \<forall>x < width.
              Inr (pixels ! (y * width + x)) = pixelColor g width height x y)"
proof -
  let ?ps = "List.product [0..<height] [0..<width]"
  let ?key = "\<lambda>p. cacheKeyOf g width height (snd p) (fst p)"
  let ?pc = "\<lambda>p. pixelColor g width height (snd p) (fst p)"
  have key: "\<And>p. p \<in> set ?ps \<Longrightarrow>
      ?key p = (gradientType g, int (snd p), int (fst p), customAngle g, centerX g, centerY g,
                ellipticalRotation g, scaleValue g)"
    using cacheKeyOf_scale100 [OF w h sc] by auto
  have "inj_on ?key (set ?ps)"
    by (rule inj_onI) (auto simp: key simp del: set_product)
  moreover have "distinct ?ps" by (simp add: distinct_product)
  ultimately have d: "distinct (map ?key ?ps)" by (simp add: distinct_map)
  have f: "\<forall>p \<in> set ?ps. ?key p \<notin> fst ` set cache" using fresh by auto
  have t: "\<forall>p \<in> set ?ps. \<exists>c. ?pc p = Inr c" using total by auto
  from fold_pixelStep_fresh [OF d f t, of "[]"] obtain cs cache' where
    run: "fold (pixelStep g width height) ?ps (Inr ([], cache)) = Inr (cs, cache')"
    and cs: "map Inr cs = map ?pc ?ps"
    by auto
  from w h sc have "calculateOptimizedPixels g cache width height = Inr (cs, cache')"
    by (simp add: calculateOptimizedPixels_def loop_pixels run del: List.product.simps)
  then have g: "gradientPixels g cache width height = Inr cs"
    by (simp add: gradientPixels_def)
  from cs have "length (map Inr cs :: (failure + string) list) = length (map ?pc ?ps)" by simp
  then have len: "length cs = width * height" by (simp add: mult.commute)
  have nth: "Inr (cs ! (y * width + x)) = pixelColor g width height x y"
    if "y < height" "x < width" for y x
  proof -
    have i: "y * width + x < length cs"
    proof -
      from that(1) have "Suc y * width \<le> height * width" by (intro mult_le_mono1) simp
      with that(2) len show ?thesis by (simp add: mult.commute)
    qed
    then have "Inr (cs ! (y * width + x)) = (map Inr cs :: (failure + string) list) ! (y * width + x)"
      by simp
    also have "\<dots> = map ?pc ?ps ! (y * width + x)" by (simp only: cs)
    also have "\<dots> = ?pc (?ps ! (y * width + x))"
      using i len by (intro nth_map) (simp add: mult.commute)
    also have "\<dots> = pixelColor g width height x y"
      by (simp only: loop_pixels_nth [OF that] fst_conv snd_conv)
    finally show ?thesis .
  qed
  from g len nth show ?thesis by blast
qed

text \<open>
  C2, as amended. The projection of the linear gradient uses \<open>customAngle\<close> itself; the
  conversion \<open>(angle + 90 + 360) % 360\<close> is applied to the CSS preview only. At angle 0
  the unit vector is \<open>(1, 0)\<close>, so the position on the ramp is the scaled \<open>x\<close> coordinate
  times 100, clamped to \<open>[0, 100]\<close>, whatever the row. Take a grid of width and height at
  least 2, scale 100, stops whose positions lie in \<open>[0, 100]\<close> and are not all 100, and a
  cache that holds no entry under the key of a pixel of this grid (an empty cache, for
  one; the keys name neither the size of the grid nor the stops, so an entry left by
  another grid or other stops would be served as it is). Then \<open>calculateOptimizedPixels\<close>
  returns \<open>width * height\<close> colours in which every pixel of the leftmost column has the
  colour of the first stop (in order of position), every pixel of the rightmost column
  that of the last stop, and every row is equal to the top row.
\<close>

theorem linear_angle_zero:
  "gradientType g = Linear \<and> customAngle g = 0 \<and> 2 \<le> width \<and> 2 \<le> height \<and>
   scaleValue g = 100 \<and> colorStops g \<noteq> [] \<and>
   (\<forall>st \<in> set (colorStops g). 0 \<le> position st \<and> position st \<le> 100) \<and>
   (\<exists>st \<in> set (colorStops g). position st < 100) \<and>
   (\<forall>y < height. \<forall>x < width. cacheKeyOf g width height x y \<notin> fst ` set cache) \<longrightarrow>
     linearPosition (customAngle g) sx sy = max 0 (min 100 (sx * 100))
     \<and> (\<exists>pixels. gradientPixels g cache width height = Inr pixels
           \<and> length pixels = width * height
           \<and> (\<forall>y < height.
                 pixels ! (y * width) = color (hd (sort_key position (colorStops g)))
                 \<and> pixels ! (y * width + (width - 1))
                     = color (last (sort_key position (colorStops g)))
                 \<and> (\<forall>x < width. pixels ! (y * width + x) = pixels ! x
                       \<and> pixelColor g width height x y = Inr (pixels ! x))))"
proof (intro impI)
  assume a: "gradientType g = Linear \<and> customAngle g = 0 \<and> 2 \<le> width \<and> 2 \<le> height \<and>
   scaleValue g = 100 \<and> colorStops g \<noteq> [] \<and>
   (\<forall>st \<in> set (colorStops g). 0 \<le> position st \<and> position st \<le> 100) \<and>
   (\<exists>st \<in> set (colorStops g). position st < 100) \<and>
   (\<forall>y < height. \<forall>x < width. cacheKeyOf g width height x y \<notin> fst ` set cache)"
  then have w: "2 \<le> width" and h: "2 \<le> height" and sc: "scaleValue g = 100"
    and fresh: "\<forall>y < height. \<forall>x < width. cacheKeyOf g width height x y \<notin> fst ` set cache"
    by simp_all
  from a have px: "\<And>x y. pixelColor g width height x y =
         (case getColorAtPosition (colorStops g)
                 (max 0 (min 100 (fst (scaledXY g width height x y) * 100))) of
            None \<Rightarrow> Inl TypeError
          | Some c \<Rightarrow> Inr c)"
    by (intro pixelColor_linear_zero) simp_all
  have r0: "getColorAtPosition (colorStops g) 0
            = Some (color (hd (sort_key position (colorStops g))))"
    using a by (intro ramp_at_0) simp_all
  have r100: "getColorAtPosition (colorStops g) 100
            = Some (color (last (sort_key position (colorStops g))))"
    using a by (intro ramp_at_100) simp_all
  have left: "pixelColor g width height 0 y
              = Inr (color (hd (sort_key position (colorStops g))))" for y
    using a by (simp add: px scaledX_left r0)
  have right: "pixelColor g width height (width - 1) y
               = Inr (color (last (sort_key position (colorStops g))))" for y
  proof -
    have "fst (scaledXY g width height (width - 1) y) = 1"
      using a by (intro scaledX_right) simp_all
    then have "pixelColor g width height (width - 1) y =
        (case getColorAtPosition (colorStops g) (max 0 (min 100 (1 * 100))) of
           None \<Rightarrow> Inl TypeError | Some c \<Rightarrow> Inr c)"
      by (simp only: px)
    then show ?thesis by (simp add: r100)
  qed
  have rows: "pixelColor g width height x y = pixelColor g width height x y'" for x y y'
    unfolding px using scaledX_row_free [of g width height x y y'] by simp
  have total: "\<forall>y < height. \<forall>x < width. \<exists>c. pixelColor g width height x y = Inr c"
  proof (intro allI impI)
    fix y x
    from a have "colorStops g \<noteq> []" by simp
    from ramp_total [OF this] obtain c where
      "getColorAtPosition (colorStops g)
         (max 0 (min 100 (fst (scaledXY g width height x y) * 100))) = Some c"
      by blast
    then show "\<exists>c. pixelColor g width height x y = Inr c" by (simp add: px)
  qed
  from gradientPixels_fresh [OF w h sc fresh total] obtain pixels where
    g: "gradientPixels g cache width height = Inr pixels"
    and len: "length pixels = width * height"
    and nth: "\<And>y x. y < height \<Longrightarrow> x < width \<Longrightarrow>
                Inr (pixels ! (y * width + x)) = pixelColor g width height x y"
    by blast
  have edges: "pixels ! (y * width) = color (hd (sort_key position (colorStops g)))
       \<and> pixels ! (y * width + (width - 1)) = color (last (sort_key position (colorStops g)))
       \<and> (\<forall>x < width. pixels ! (y * width + x) = pixels ! x
             \<and> pixelColor g width height x y = Inr (pixels ! x))"
    if y: "y < height" for y
  proof (intro conjI allI impI)
    from w have w0: "0 < width" and w1: "width - 1 < width" by simp_all
    from h have h0: "0 < height" by simp
    from nth [OF y w0] left [of y]
    show "pixels ! (y * width) = color (hd (sort_key position (colorStops g)))" by simp
    from nth [OF y w1] right [of y]
    show "pixels ! (y * width + (width - 1))
          = color (last (sort_key position (colorStops g)))" by simp
    fix x assume x: "x < width"
    from nth [OF h0 x] have top: "Inr (pixels ! x) = pixelColor g width height x 0" by simp
    with nth [OF y x] rows [of x y 0]
    have "(Inr (pixels ! (y * width + x)) :: failure + string) = Inr (pixels ! x)"
      by (simp only:)
    then show "pixels ! (y * width + x) = pixels ! x" by simp
    from top rows [of x y 0] show "pixelColor g width height x y = Inr (pixels ! x)" by simp
  qed
  have "linearPosition (customAngle g) sx sy = max 0 (min 100 (sx * 100))"
    using a by (simp add: linearPosition_zero)
  with g len edges show "linearPosition (customAngle g) sx sy = max 0 (min 100 (sx * 100))
     \<and> (\<exists>pixels. gradientPixels g cache width height = Inr pixels
           \<and> length pixels = width * height
           \<and> (\<forall>y < height.
                 pixels ! (y * width) = color (hd (sort_key position (colorStops g)))
                 \<and> pixels ! (y * width + (width - 1))
                     = color (last (sort_key position (colorStops g)))
                 \<and> (\<forall>x < width. pixels ! (y * width + x) = pixels ! x
                       \<and> pixelColor g width height x y = Inr (pixels ! x))))"
    by blast
qed

lemma linear0_fields:
  "gradientType linear0 = Linear" "customAngle linear0 = 0" "scaleValue linear0 = 100"
  "colorStops linear0 = redBlue"
  by (simp_all add: linear0_def)

lemma sorted_redBlue: "sort_key position redBlue = redBlue"
  by (simp add: redBlue_def)

text \<open>
  The amended C2 at the gradient red at 0, blue at 100 on the 2x2 grid with an empty
  cache.
\<close>

theorem linear_angle_zero_witness:
  "gradientType linear0 = Linear \<and> customAngle linear0 = 0 \<and> (2::nat) \<le> 2 \<and>
   scaleValue linear0 = 100 \<and> colorStops linear0 \<noteq> [] \<and>
   map position (colorStops linear0) = [0, 100] \<and>
   (\<exists>st \<in> set (colorStops linear0). position st < 100) \<and>
   fst ` set ([] :: colorCache) = {} \<and>
   (\<exists>pixels. gradientPixels linear0 [] 2 2 = Inr pixels \<and> length pixels = 2 * 2 \<and>
      pixels ! (1 * 2) = ''#ff0000'' \<and> pixels ! (0 * 2 + (2 - 1)) = ''#0000ff'' \<and>
      pixels ! (1 * 2 + 1) = pixels ! 1)"
proof -
  have h: "gradientType linear0 = Linear \<and> customAngle linear0 = 0 \<and> (2::nat) \<le> 2 \<and>
     (2::nat) \<le> 2 \<and> scaleValue linear0 = 100 \<and> colorStops linear0 \<noteq> [] \<and>
     (\<forall>st \<in> set (colorStops linear0). 0 \<le> position st \<and> position st \<le> 100) \<and>
     (\<exists>st \<in> set (colorStops linear0). position st < 100) \<and>
     (\<forall>y < 2. \<forall>x < 2. cacheKeyOf linear0 2 2 x y \<notin> fst ` set ([] :: colorCache))"
    by (simp add: linear0_fields redBlue_def)
  from linear_angle_zero [of linear0 2 2 "[]" 0 0] h obtain pixels where
    g: "gradientPixels linear0 [] 2 2 = Inr pixels" and len: "length pixels = 2 * 2"
    and rows: "\<forall>y < 2. pixels ! (y * 2) = color (hd (sort_key position (colorStops linear0)))
                 \<and> pixels ! (y * 2 + (2 - 1))
                     = color (last (sort_key position (colorStops linear0)))
                 \<and> (\<forall>x < 2. pixels ! (y * 2 + x) = pixels ! x
                       \<and> pixelColor linear0 2 2 x y = Inr (pixels ! x))"
    by blast
  have ends: "color (hd (sort_key position (colorStops linear0))) = ''#ff0000''"
    "color (last (sort_key position (colorStops linear0))) = ''#0000ff''"
    by (simp_all add: linear0_fields sorted_redBlue) (simp_all add: redBlue_def)
  from rows have bottom: "pixels ! (1 * 2) = color (hd (sort_key position (colorStops linear0)))
       \<and> (\<forall>x < 2. pixels ! (1 * 2 + x) = pixels ! x
             \<and> pixelColor linear0 2 2 x 1 = Inr (pixels ! x))"
    by (rule allE [where x = 1]) simp
  then have "\<forall>x < 2. pixels ! (1 * 2 + x) = pixels ! x" by simp
  then have same: "pixels ! (1 * 2 + 1) = pixels ! 1"
    by (rule allE [where x = 1]) simp
  from rows
  have top: "pixels ! (0 * 2 + (2 - 1)) = color (last (sort_key position (colorStops linear0)))"
    by (rule allE [where x = 0]) simp
  from bottom top same ends g len
  have "gradientPixels linear0 [] 2 2 = Inr pixels \<and> length pixels = 2 * 2 \<and>
      pixels ! (1 * 2) = ''#ff0000'' \<and> pixels ! (0 * 2 + (2 - 1)) = ''#0000ff'' \<and>
      pixels ! (1 * 2 + 1) = pixels ! 1"
    by simp
  then have "\<exists>pixels. gradientPixels linear0 [] 2 2 = Inr pixels \<and> length pixels = 2 * 2 \<and>
      pixels ! (1 * 2) = ''#ff0000'' \<and> pixels ! (0 * 2 + (2 - 1)) = ''#0000ff'' \<and>
      pixels ! (1 * 2 + 1) = pixels ! 1"
    by (rule exI)
  moreover have "gradientType linear0 = Linear \<and> customAngle linear0 = 0 \<and> (2::nat) \<le> 2 \<and>
   scaleValue linear0 = 100 \<and> colorStops linear0 \<noteq> [] \<and>
   map position (colorStops linear0) = [0, 100] \<and>
   (\<exists>st \<in> set (colorStops linear0). position st < 100) \<and>
   fst ` set ([] :: colorCache) = {}"
    by (simp add: linear0_fields redBlue_def)
  ultimately show ?thesis by blast
qed

lemmas color_defs = interpolateColor_def substring_def parseInt16_def hexval_def mix_def
  Math_round_def toString16_def padStart2_def hexDigits.simps hexchar_def

lemmas pixel_defs = pixelColor_def scaledXY_def outsideRange_def calcFunc_def linearPosition_def
  linear0_def getColorAtPosition_def redBlue_def

lemma px00: "pixelColor linear0 2 2 0 0 = Inr ''#ff0000''"
  by (simp add: pixel_defs)

lemma px10: "pixelColor linear0 2 2 (Suc 0) 0 = Inr ''#0000ff''"
  by (simp add: pixel_defs)

lemma px01: "pixelColor linear0 2 2 0 (Suc 0) = Inr ''#ff0000''"
  by (simp add: pixel_defs)

lemma px11: "pixelColor linear0 2 2 (Suc 0) (Suc 0) = Inr ''#0000ff''"
  by (simp add: pixel_defs)

lemma keys_linear0:
  "x < 2 \<Longrightarrow> y < 2 \<Longrightarrow> cacheKeyOf linear0 2 2 x y = (Linear, int x, int y, 0, 50, 50, 0, 100)"
  by (auto simp add: cacheKeyOf_def scaledXY_def outsideRange_def mapped_def Math_round_def
        linear0_def less_2_cases_iff)

lemma stale_entry_is_served:
  "gradientPixels linear0 [((Linear, 1, 0, 0, 50, 50, 0, 100), ''#800080'')] 2 2
   = Inr [''#ff0000'', ''#800080'', ''#ff0000'', ''#0000ff'']"
  by (simp add: gradientPixels_def calculateOptimizedPixels_def upt_rec pixelStep_def
        getColorFromCache_def keys_linear0 linear0_fields px00 px01 px10 px11)

text \<open>
  C2 as stated fails: on the 2x2 grid, with an empty cache, the gradient red at 0, blue at
  100 at angle 0 gives red, blue in the top row and red, blue in the bottom row. The pixel
  at the right of the top edge has the colour of the last stop and the pixel at the left
  of the bottom edge that of the first stop. (All numbers of this computation are exact
  in floating point as well.) And with a cache that holds a colour under the key of the
  top right pixel, that colour is returned for it, whatever the stops.
\<close>

theorem linear_angle_zero_runs_left_to_right:
  "gradientPixels linear0 [] 2 2 = Inr [''#ff0000'', ''#0000ff'', ''#ff0000'', ''#0000ff'']
   \<and> pixelColor linear0 2 2 1 0 = Inr ''#0000ff''
   \<and> pixelColor linear0 2 2 0 1 = Inr ''#ff0000''
   \<and> convertAngleToCss 0 = 90
   \<and> gradientPixels linear0 [((Linear, 1, 0, 0, 50, 50, 0, 100), ''#800080'')] 2 2
       = Inr [''#ff0000'', ''#800080'', ''#ff0000'', ''#0000ff'']"
  by (simp add: gradientPixels_def calculateOptimizedPixels_def upt_rec pixelStep_def
        getColorFromCache_def keys_linear0 linear0_fields px00 px01 px10 px11 convertAngleToCss_def
        js_rem_def)

text \<open>
  C3 as stated fails: the ramp of the stops red at 0 and blue at 100 does not give
  \<open>#7f007f\<close> at position 50.
\<close>

theorem ramp_midpoint_is_7f007f_counterexample:
  "getColorAtPosition redBlue 50 \<noteq> Some ''#7f007f''"
  by (simp add: getColorAtPosition_def redBlue_def color_defs)

text \<open>
  C3, as amended. For the stops red at 0 and blue at 100 the ramp at position 50 is
  \<open>#800080\<close>: the factor is one half, each of the two moving channels is
  \<open>Math.round(127.5)\<close>, and \<open>Math.round\<close> rounds a tie up, to 128, which is 80 in
  hexadecimal.
\<close>

theorem ramp_midpoint:
  "getColorAtPosition redBlue 50 = Some ''#800080''
   \<and> interpolateColor ''#ff0000'' ''#0000ff'' (1 / 2) = ''#800080''
   \<and> Math_round (255 / 2) = 128"
  by (simp add: getColorAtPosition_def redBlue_def color_defs)

section \<open>Properties of the store\<close>

subsection \<open>Array accesses and the fields an operation leaves alone\<close>

lemma js_get_js_set:
  "js_get (js_set xs i v) j = (if j = i then v else js_get xs j)"
  by (auto simp: js_get_def js_set_def nth_append)

lemma length_js_set_in_range: "i < length xs \<Longrightarrow> length (js_set xs i v) = length xs"
  by (simp add: js_set_def)

lemma js_set_restore:
  "i < length xs \<Longrightarrow> js_set (js_set xs i v) i (js_get xs i) = xs"
  by (simp add: js_set_def js_get_def)

lemma debounced_keeps [simp]:
  "pixelData (debouncedSendToWled s) = pixelData s"
  "history (debouncedSendToWled s) = history s"
  "gridWidth (debouncedSendToWled s) = gridWidth s"
  "gridHeight (debouncedSendToWled s) = gridHeight s"
  "ignoreApi (debouncedSendToWled s) = ignoreApi s"
  "posted (debouncedSendToWled s) = posted s"
  "frames (debouncedSendToWled s) = frames s"
  "ls_pixelData (debouncedSendToWled s) = ls_pixelData s"
  "ls_drawHistory (debouncedSendToWled s) = ls_drawHistory s"
  by (simp_all add: debouncedSendToWled_def Let_def)

lemma saveToLocalStorage_keeps [simp]:
  "pixelData (saveToLocalStorage s) = pixelData s"
  "history (saveToLocalStorage s) = history s"
  "gridWidth (saveToLocalStorage s) = gridWidth s"
  "gridHeight (saveToLocalStorage s) = gridHeight s"
  "ignoreApi (saveToLocalStorage s) = ignoreApi s"
  "posted (saveToLocalStorage s) = posted s"
  "frames (saveToLocalStorage s) = frames s"
  "timeouts (saveToLocalStorage s) = timeouts s"
  "debounceTimer (saveToLocalStorage s) = debounceTimer s"
  "nextHandle (saveToLocalStorage s) = nextHandle s"
  "pixelDataChanged (saveToLocalStorage s) = pixelDataChanged s"
  "ls_drawHistory (saveToLocalStorage s) = ls_drawHistory s"
  by (simp_all add: saveToLocalStorage_def)

lemma saveToHistory_keeps [simp]:
  "pixelData (saveToHistory a s) = pixelData s"
  "gridWidth (saveToHistory a s) = gridWidth s"
  "gridHeight (saveToHistory a s) = gridHeight s"
  "ignoreApi (saveToHistory a s) = ignoreApi s"
  "posted (saveToHistory a s) = posted s"
  "frames (saveToHistory a s) = frames s"
  "timeouts (saveToHistory a s) = timeouts s"
  "debounceTimer (saveToHistory a s) = debounceTimer s"
  "nextHandle (saveToHistory a s) = nextHandle s"
  "pixelDataChanged (saveToHistory a s) = pixelDataChanged s"
  by (simp_all add: saveToHistory_def Let_def)

lemma history_saveToHistory:
  "history (saveToHistory a s) =
     (if length (history s) \<ge> maxHistoryLength then tl (history s @ [a]) else history s @ [a])"
  by (auto simp: saveToHistory_def Let_def)

lemma saveToHistory_last:
  "history (saveToHistory a s) \<noteq> [] \<and> last (history (saveToHistory a s)) = a"
  by (cases "history s") (auto simp: history_saveToHistory maxHistoryLength_def)

lemma history_undo: "history (undo s) = butlast (history s)"
  by (simp add: undo_def Let_def)

lemma pixelData_undo:
  "pixelData (undo s) =
     (if history s = [] then pixelData s else undoAction (last (history s)) (pixelData s))"
  by (simp add: undo_def Let_def)

lemma undo_dims [simp]:
  "gridWidth (undo s) = gridWidth s" "gridHeight (undo s) = gridHeight s"
  by (simp_all add: undo_def Let_def)

lemma undo_empty: "history s = [] \<Longrightarrow> undo s = s"
  by (simp add: undo_def)

lemma undo_funpow:
  "history s = hs @ acts \<Longrightarrow>
   history ((undo ^^ length acts) s) = hs \<and>
   pixelData ((undo ^^ length acts) s) = fold undoAction (rev acts) (pixelData s)"
proof (induction acts arbitrary: s rule: rev_induct)
  case Nil
  then show ?case by simp
next
  case (snoc a acts)
  have h: "history (undo s) = hs @ acts"
    using snoc.prems by (simp add: history_undo butlast_append)
  have p: "pixelData (undo s) = undoAction a (pixelData s)"
    using snoc.prems by (simp add: pixelData_undo)
  have "(undo ^^ length (acts @ [a])) s = (undo ^^ length acts) (undo s)"
    by (simp add: funpow_swap1)
  with snoc.IH [OF h] p show ?case by simp
qed

lemma fold_saveToHistory_bounded:
  "length (history s) \<le> maxHistoryLength \<Longrightarrow>
   length (history (fold saveToHistory acts s)) \<le> maxHistoryLength"
  by (induction acts arbitrary: s) (auto simp: history_saveToHistory maxHistoryLength_def)

lemma fold_saveToHistory_keeps [simp]:
  "pixelData (fold saveToHistory acts s) = pixelData s"
  by (induction acts arbitrary: s) simp_all

lemma fold_saveToHistory_short:
  "length (history s) + length acts \<le> maxHistoryLength \<Longrightarrow>
   history (fold saveToHistory acts s) = history s @ acts"
  by (induction acts arbitrary: s) (auto simp: history_saveToHistory)

lemma fold_saveToHistory_51:
  assumes "history s = []" and "length acts = 51"
  shows "history (fold saveToHistory acts s) = tl acts"
proof -
  from assms(2) obtain front a where acts: "acts = front @ [a]" and lf: "length front = 50"
    by (cases acts rule: rev_cases) auto
  have "history (fold saveToHistory front s) = front"
    using fold_saveToHistory_short [of s front] assms(1) lf by (simp add: maxHistoryLength_def)
  then have "history (fold saveToHistory acts s) = tl (front @ [a])"
    using lf by (simp add: acts history_saveToHistory maxHistoryLength_def)
  then show ?thesis by (simp add: acts)
qed

subsection \<open>The bound on the log is an invariant\<close>

lemma historyBounded_saveToHistory:
  "historyBounded s \<Longrightarrow> historyBounded (saveToHistory a s)"
  by (auto simp: historyBounded_def saveToHistory_def maxHistoryLength_def Let_def)

lemma historyBounded_batchStep: "historyBounded s \<Longrightarrow> historyBounded (batchStep c i s)"
  using historyBounded_saveToHistory [of s "DrawAction i (js_get (pixelData s) i)"]
  by (simp add: batchStep_def Let_def historyBounded_def)

lemma historyBounded_fold_batchStep:
  "historyBounded s \<Longrightarrow> historyBounded (fold (batchStep c) is s)"
  by (induction "is" arbitrary: s) (simp_all add: historyBounded_batchStep)

lemma historyBounded_tail:
  "historyBounded s \<Longrightarrow>
   historyBounded (debouncedSendToWled (saveToLocalStorage s\<lparr>pixelDataChanged := True\<rparr>))"
  by (simp add: historyBounded_def)

lemma historyBounded_pixels:
  "historyBounded s \<Longrightarrow> historyBounded (s\<lparr>pixelData := ps\<rparr>)"
  "historyBounded s \<Longrightarrow> historyBounded (s\<lparr>pixelDataChanged := b\<rparr>)"
  "historyBounded s \<Longrightarrow> historyBounded (saveToLocalStorage s)"
  "historyBounded s \<Longrightarrow> historyBounded (debouncedSendToWled s)"
  by (simp_all add: historyBounded_def saveToLocalStorage_def debouncedSendToWled_def Let_def)

lemma historyBounded_undo: "historyBounded s \<Longrightarrow> historyBounded (undo s)"
proof -
  assume a: "historyBounded s"
  from a have "length (history s) \<le> maxHistoryLength"
    by (simp add: historyBounded_def)
  then have "length (butlast (history s)) \<le> maxHistoryLength"
    by simp
  then show ?thesis using a
    by (simp add: historyBounded_def undo_def Let_def saveToLocalStorage_def
        debouncedSendToWled_def)
qed

lemma historyBounded_setupGrid: "historyBounded s \<Longrightarrow> historyBounded (setupGrid s)"
  by (auto simp: historyBounded_def setupGrid_def loadHistoryFromStorage_def Let_def
      split: option.splits)

lemma historyBounded_resize: "historyBounded s \<Longrightarrow> historyBounded (resize w h s)"
proof -
  assume a: "historyBounded s"
  then have "historyBounded (s\<lparr>gridWidth := w, gridHeight := h\<rparr>)"
    by (simp add: historyBounded_def)
  then have "historyBounded (setupGrid (s\<lparr>gridWidth := w, gridHeight := h\<rparr>))"
    by (rule historyBounded_setupGrid)
  with a show ?thesis by (simp add: resize_def)
qed

lemma historyBounded_perform: "historyBounded s \<Longrightarrow> historyBounded (perform c s)"
proof (cases c)
  case ScheduleSend
  assume "historyBounded s"
  then show ?thesis using ScheduleSend by (simp add: historyBounded_pixels)
next
  case (UpdatePixel i col)
  assume "historyBounded s"
  then show ?thesis using UpdatePixel
    by (simp add: updatePixel_def Let_def historyBounded_pixels historyBounded_saveToHistory)
next
  case (BatchUpdatePixels "is" col)
  assume "historyBounded s"
  then show ?thesis using BatchUpdatePixels
    by (simp add: batchUpdatePixels_def Let_def historyBounded_pixels
        historyBounded_fold_batchStep)
next
  case (ApplyPixelArray ps)
  assume "historyBounded s"
  then show ?thesis using ApplyPixelArray
    by (simp add: applyPixelArray_def Let_def historyBounded_pixels historyBounded_saveToHistory)
next
  case ClearScreen
  assume "historyBounded s"
  then show ?thesis using ClearScreen
    by (simp add: clearScreen_def Let_def historyBounded_pixels historyBounded_saveToHistory)
next
  case Undo
  assume "historyBounded s"
  then show ?thesis using Undo by (simp add: historyBounded_undo)
next
  case (SetDimensions w h)
  assume "historyBounded s"
  then show ?thesis using SetDimensions by (simp add: historyBounded_resize)
qed

lemma historyBounded_run: "historyBounded s \<Longrightarrow> historyBounded (run calls s)"
  unfolding run_def by (induction calls arbitrary: s) (simp_all add: historyBounded_perform)

lemma historyBounded_grid2x2: "historyBounded grid2x2"
  by (simp add: historyBounded_def grid2x2_def setupGrid_def loadHistoryFromStorage_def
      initialStore_def Let_def)

subsection \<open>The history log\<close>

text \<open>
  C5. The history log never holds more than 50 actions: from a state whose log and stored
  log hold at most 50, every run of calls on the store (drawing, batch drawing, applying
  an array, clearing, undoing, resizing, scheduling a send) leaves at most 50, and so
  does every sequence of \<open>saveToHistory\<close>. Saving an action when the log holds 50 drops
  the oldest action and appends the new one. After exactly 51 saves on an empty log the
  log is the last 50 of them; 50 undos then empty it, the pixel buffer being the result
  of undoing those 50 actions, newest first, and no other; a further undo changes
  nothing, so the first action is never undone.
\<close>

theorem history_capacity:
  "(historyBounded s \<longrightarrow> length (history (run calls s)) \<le> 50)
   \<and> (length (history s) \<le> 50 \<longrightarrow> length (history (fold saveToHistory acts s)) \<le> 50)
   \<and> (length (history s) = 50 \<longrightarrow> history (saveToHistory a s) = tl (history s) @ [a])
   \<and> (history s = [] \<and> length acts = 51 \<longrightarrow>
        history (fold saveToHistory acts s) = tl acts
        \<and> history ((undo ^^ 50) (fold saveToHistory acts s)) = []
        \<and> pixelData ((undo ^^ 50) (fold saveToHistory acts s))
            = fold undoAction (rev (tl acts)) (pixelData s)
        \<and> undo ((undo ^^ 50) (fold saveToHistory acts s))
            = (undo ^^ 50) (fold saveToHistory acts s))"
proof (intro conjI impI)
  assume "historyBounded s"
  then have "historyBounded (run calls s)" by (rule historyBounded_run)
  then show "length (history (run calls s)) \<le> 50"
    by (simp add: historyBounded_def maxHistoryLength_def)
next
  assume "length (history s) \<le> 50"
  then show "length (history (fold saveToHistory acts s)) \<le> 50"
    using fold_saveToHistory_bounded [of s acts] by (simp add: maxHistoryLength_def)
next
  assume "length (history s) = 50"
  then show "history (saveToHistory a s) = tl (history s) @ [a]"
    by (cases "history s") (auto simp: history_saveToHistory maxHistoryLength_def)
next
  assume a: "history s = [] \<and> length acts = 51"
  let ?s = "fold saveToHistory acts s"
  from a show h: "history ?s = tl acts" by (simp add: fold_saveToHistory_51)
  have len: "length (tl acts) = 50" using a by simp
  have "history ?s = [] @ tl acts" using h by simp
  from undo_funpow [OF this] len
  have u: "history ((undo ^^ 50) ?s) = []"
    "pixelData ((undo ^^ 50) ?s) = fold undoAction (rev (tl acts)) (pixelData ?s)"
    by simp_all
  from u(1) show "history ((undo ^^ 50) ?s) = []" .
  from u(2) show "pixelData ((undo ^^ 50) ?s) = fold undoAction (rev (tl acts)) (pixelData s)"
    by simp
  from u(1) show "undo ((undo ^^ 50) ?s) = (undo ^^ 50) ?s" by (rule undo_empty)
qed

lemma grid2x2_history: "history grid2x2 = []"
  by (simp add: grid2x2_def setupGrid_def loadHistoryFromStorage_def initialStore_def Let_def)

text \<open>
  C5 at the 2x2 grid: a clear followed by 50 draws are saved on the empty log, which then
  holds the 50 draws; a 52nd action saved on that full log drops the oldest draw.
\<close>

theorem history_capacity_witness:
  "history grid2x2 = [] \<and> historyBounded grid2x2
   \<and> length (ClearAction [Some ''#ff0000''] # replicate 50 (DrawAction 0 (Some ''#000000''))) = 51
   \<and> history (fold saveToHistory
        (ClearAction [Some ''#ff0000''] # replicate 50 (DrawAction 0 (Some ''#000000''))) grid2x2)
       = replicate 50 (DrawAction 0 (Some ''#000000''))
   \<and> history ((undo ^^ 50) (fold saveToHistory
        (ClearAction [Some ''#ff0000''] # replicate 50 (DrawAction 0 (Some ''#000000''))) grid2x2))
       = []
   \<and> history (saveToHistory (ClearAction []) (fold saveToHistory
        (ClearAction [Some ''#ff0000''] # replicate 50 (DrawAction 0 (Some ''#000000''))) grid2x2))
       = replicate 49 (DrawAction 0 (Some ''#000000'')) @ [ClearAction []]
   \<and> length (history (run [ClearScreen, Undo, ClearScreen] grid2x2)) \<le> 50"
proof -
  let ?acts = "ClearAction [Some ''#ff0000''] # replicate 50 (DrawAction 0 (Some ''#000000''))"
  let ?full = "fold saveToHistory ?acts grid2x2"
  have h: "history grid2x2 = []" by (rule grid2x2_history)
  have b: "historyBounded grid2x2" by (rule historyBounded_grid2x2)
  have l: "length ?acts = 51" by simp
  from history_capacity [of grid2x2 "[ClearScreen, Undo, ClearScreen]" ?acts] h l b
  have first: "history ?full = tl ?acts"
    and emptied: "history ((undo ^^ 50) ?full) = []"
    and bounded: "length (history (run [ClearScreen, Undo, ClearScreen] grid2x2)) \<le> 50"
    by blast+
  from first have full: "history ?full = replicate 50 (DrawAction 0 (Some ''#000000''))"
    by simp
  then have "length (history ?full) = 50" by simp
  with history_capacity [of ?full _ _ "ClearAction []"]
  have "history (saveToHistory (ClearAction []) ?full) = tl (history ?full) @ [ClearAction []]"
    by blast
  moreover have "tl (replicate 50 (DrawAction 0 (Some ''#000000'')))
                 = replicate 49 (DrawAction 0 (Some ''#000000''))"
    by simp
  ultimately have "history (saveToHistory (ClearAction []) ?full)
             = replicate 49 (DrawAction 0 (Some ''#000000'')) @ [ClearAction []]"
    by (simp only: full)
  with h b l full emptied bounded show ?thesis by simp
qed

subsection \<open>Undoing a draw\<close>

lemma pixelData_updatePixel:
  "js_get (pixelData s) i \<noteq> Some c \<Longrightarrow>
   pixelData (updatePixel i c s) = js_set (pixelData s) i (Some c)"
  by (simp add: updatePixel_def Let_def)

lemma history_updatePixel:
  "js_get (pixelData s) i \<noteq> Some c \<Longrightarrow>
   history (updatePixel i c s) \<noteq> [] \<and>
   last (history (updatePixel i c s)) = DrawAction i (js_get (pixelData s) i)"
  using saveToHistory_last [of "DrawAction i (js_get (pixelData s) i)" s]
  by (simp add: updatePixel_def Let_def)

lemma updatePixel_dims [simp]:
  "gridWidth (updatePixel i c s) = gridWidth s" "gridHeight (updatePixel i c s) = gridHeight s"
  by (simp_all add: updatePixel_def Let_def)

text \<open>
  C6. For every state and every draw that is recorded (the cell at index \<open>i\<close> does not
  hold the new colour already), \<open>undo\<close> right after it gives back, at every index, the
  value read before the draw; the buffer is the same list when \<open>i\<close> is inside it; the
  width and the height of the grid are unchanged. More generally, when the newest action
  of the log is a draw at index \<open>i\<close>, \<open>undo\<close> writes the recorded colour at \<open>i\<close>, every
  other index reads as before, and the dimensions are unchanged.
\<close>

theorem undo_after_draw:
  "(js_get (pixelData s) i \<noteq> Some c \<longrightarrow>
      (\<forall>j. js_get (pixelData (undo (updatePixel i c s))) j = js_get (pixelData s) j)
      \<and> (i < length (pixelData s) \<longrightarrow> pixelData (undo (updatePixel i c s)) = pixelData s)
      \<and> gridWidth (undo (updatePixel i c s)) = gridWidth s
      \<and> gridHeight (undo (updatePixel i c s)) = gridHeight s)
   \<and> (history s \<noteq> [] \<and> last (history s) = DrawAction i v \<longrightarrow>
      js_get (pixelData (undo s)) i = v
      \<and> (\<forall>j. j \<noteq> i \<longrightarrow> js_get (pixelData (undo s)) j = js_get (pixelData s) j)
      \<and> gridWidth (undo s) = gridWidth s
      \<and> gridHeight (undo s) = gridHeight s)"
proof (intro conjI impI allI)
  fix j
  assume a: "js_get (pixelData s) i \<noteq> Some c"
  have p: "pixelData (undo (updatePixel i c s)) =
           js_set (js_set (pixelData s) i (Some c)) i (js_get (pixelData s) i)"
    using history_updatePixel [OF a] pixelData_updatePixel [OF a]
    by (simp add: pixelData_undo undoAction_def)
  show "js_get (pixelData (undo (updatePixel i c s))) j = js_get (pixelData s) j"
    by (simp add: p js_get_js_set)
  show "gridWidth (undo (updatePixel i c s)) = gridWidth s" by simp
  show "gridHeight (undo (updatePixel i c s)) = gridHeight s" by simp
  assume "i < length (pixelData s)"
  then show "pixelData (undo (updatePixel i c s)) = pixelData s"
    by (simp add: p js_set_restore)
next
  assume a: "history s \<noteq> [] \<and> last (history s) = DrawAction i v"
  then have p: "pixelData (undo s) = js_set (pixelData s) i v"
    by (simp add: pixelData_undo undoAction_def)
  show "js_get (pixelData (undo s)) i = v" by (simp add: p js_get_js_set)
  show "gridWidth (undo s) = gridWidth s" by simp
  show "gridHeight (undo s) = gridHeight s" by simp
  fix j
  assume "j \<noteq> i"
  then show "js_get (pixelData (undo s)) j = js_get (pixelData s) j"
    by (simp add: p js_get_js_set)
qed

lemmas grid2x2_defs = grid2x2_def setupGrid_def loadHistoryFromStorage_def initialStore_def
  orBlack_def black_def

lemma grid2x2_pixelData:
  "pixelData grid2x2 = [Some ''#000000'', Some ''#000000'', Some ''#000000'', Some ''#000000'']"
  by (simp add: grid2x2_defs Let_def upt_rec)

text \<open>C6 at the 2x2 grid: cell 3 is painted red and the draw is undone.\<close>

theorem undo_after_draw_witness:
  "js_get (pixelData grid2x2) 3 \<noteq> Some ''#ff0000''
   \<and> 3 < length (pixelData grid2x2)
   \<and> pixelData (updatePixel 3 ''#ff0000'' grid2x2)
       = [Some ''#000000'', Some ''#000000'', Some ''#000000'', Some ''#ff0000'']
   \<and> pixelData (undo (updatePixel 3 ''#ff0000'' grid2x2))
       = [Some ''#000000'', Some ''#000000'', Some ''#000000'', Some ''#000000'']
   \<and> history (updatePixel 3 ''#ff0000'' grid2x2) \<noteq> []
   \<and> last (history (updatePixel 3 ''#ff0000'' grid2x2)) = DrawAction 3 (Some ''#000000'')
   \<and> js_get (pixelData (undo (updatePixel 3 ''#ff0000'' grid2x2))) 3 = Some ''#000000''"
proof -
  let ?painted = "updatePixel 3 ''#ff0000'' grid2x2"
  have a: "js_get (pixelData grid2x2) 3 \<noteq> Some ''#ff0000''"
    by (simp add: grid2x2_pixelData js_get_def)
  have b: "3 < length (pixelData grid2x2)" by (simp add: grid2x2_pixelData)
  from undo_after_draw [of grid2x2 3 "''#ff0000''"] a b
  have restored: "pixelData (undo ?painted) = pixelData grid2x2" by blast
  have painted: "pixelData ?painted
       = [Some ''#000000'', Some ''#000000'', Some ''#000000'', Some ''#ff0000'']"
    by (simp add: pixelData_updatePixel [OF a] grid2x2_pixelData js_set_def)
  have log: "history ?painted \<noteq> [] \<and> last (history ?painted) = DrawAction 3 (Some ''#000000'')"
    using history_updatePixel [OF a] by (simp add: grid2x2_pixelData js_get_def)
  with undo_after_draw [of ?painted 3 _ "Some ''#000000''"]
  have "js_get (pixelData (undo ?painted)) 3 = Some ''#000000''" by blast
  with a b restored painted log show ?thesis by (simp add: grid2x2_pixelData)
qed

subsection \<open>Undoing a clear, and the empty log\<close>

text \<open>
  C7. For every state, \<open>undo\<close> right after \<open>clearScreen\<close> makes the pixel buffer equal,
  element for element, to the copy of it that the clear recorded, which is the buffer
  as it was before the clear; the dimensions of the grid are unchanged. On an empty log
  \<open>undo\<close> returns the state as it is.
\<close>

theorem undo_after_clear:
  "pixelData (undo (clearScreen s)) = pixelData s
   \<and> gridWidth (undo (clearScreen s)) = gridWidth s
   \<and> gridHeight (undo (clearScreen s)) = gridHeight s
   \<and> (history s = [] \<longrightarrow> undo s = s)"
proof -
  have "history (clearScreen s) \<noteq> [] \<and> last (history (clearScreen s)) = ClearAction (pixelData s)"
    using saveToHistory_last [of "ClearAction (pixelData s)" s]
    by (simp add: clearScreen_def Let_def)
  then have "pixelData (undo (clearScreen s)) = pixelData s"
    by (simp add: pixelData_undo undoAction_def)
  moreover have "gridWidth (clearScreen s) = gridWidth s" "gridHeight (clearScreen s) = gridHeight s"
    by (simp_all add: clearScreen_def Let_def)
  ultimately show ?thesis by (simp add: undo_empty)
qed

text \<open>C7 at the 2x2 grid, whose log is empty.\<close>

theorem undo_after_clear_witness:
  "history grid2x2 = [] \<and> undo grid2x2 = grid2x2
   \<and> pixelData (undo (clearScreen grid2x2)) = pixelData grid2x2"
  using undo_after_clear [of grid2x2] grid2x2_history by simp

subsection \<open>Drawing the colour a cell already has\<close>

text \<open>
  C9. For every index \<open>i\<close> and colour \<open>c\<close> such that the cell at \<open>i\<close> already holds \<open>c\<close>,
  \<open>updatePixel\<close> returns the state as it is, in the variant with the pending-change flag
  and in the one without: no action is recorded, the pixel buffer and the stored copies
  are unchanged, and the flag is not set.
\<close>

theorem updatePixel_same_color:
  "js_get (pixelData s) i = Some c \<Longrightarrow> updatePixel i c s = s \<and> updatePixel_basic i c s = s"
  by (simp add: updatePixel_def updatePixel_basic_def)

text \<open>C9 at the 2x2 grid, whose cell 1 is black.\<close>

theorem updatePixel_same_color_witness:
  "js_get (pixelData grid2x2) 1 = Some ''#000000''
   \<and> updatePixel 1 ''#000000'' grid2x2 = grid2x2
   \<and> updatePixel_basic 1 ''#000000'' grid2x2 = grid2x2"
proof -
  have a: "js_get (pixelData grid2x2) 1 = Some ''#000000''"
    by (simp add: grid2x2_pixelData js_get_def)
  from updatePixel_same_color [OF a] a show ?thesis by simp
qed

subsection \<open>The length of the pixel buffer\<close>

text \<open>
  \<open>setupGrid\<close> and \<open>clearScreen\<close> build a buffer of \<open>gridWidth * gridHeight\<close> cells,
  \<open>applyPixelArray\<close> refuses an array of another length, \<open>batchUpdatePixels\<close> skips an
  index outside the buffer, and \<open>updatePixel\<close> keeps the length for an index inside it.
\<close>

lemma length_setupGrid: "length (pixelData (setupGrid s)) = gridWidth s * gridHeight s"
  by (simp add: setupGrid_def loadHistoryFromStorage_def Let_def split: option.split)

lemma setupGrid_dims [simp]:
  "gridWidth (setupGrid s) = gridWidth s" "gridHeight (setupGrid s) = gridHeight s"
  by (simp_all add: setupGrid_def loadHistoryFromStorage_def Let_def split: option.split)

lemma length_resize:
  "length (pixelData s) = gridWidth s * gridHeight s \<Longrightarrow>
   length (pixelData (resize w h s)) = gridWidth (resize w h s) * gridHeight (resize w h s)"
  by (simp add: resize_def length_setupGrid)

lemma length_clearScreen:
  "length (pixelData (clearScreen s)) = gridWidth (clearScreen s) * gridHeight (clearScreen s)"
  by (simp add: clearScreen_def Let_def)

lemma length_updatePixel:
  "i < length (pixelData s) \<Longrightarrow> length (pixelData (updatePixel i c s)) = length (pixelData s)"
  by (simp add: updatePixel_def Let_def length_js_set_in_range)

lemma length_batchStep: "length (pixelData (batchStep c i s)) = length (pixelData s)"
  by (simp add: batchStep_def Let_def length_js_set_in_range)

lemma batchStep_dims [simp]:
  "gridWidth (batchStep c i s) = gridWidth s" "gridHeight (batchStep c i s) = gridHeight s"
  by (simp_all add: batchStep_def Let_def)

lemma fold_batchStep:
  "length (pixelData (fold (batchStep c) is s)) = length (pixelData s)
   \<and> gridWidth (fold (batchStep c) is s) = gridWidth s
   \<and> gridHeight (fold (batchStep c) is s) = gridHeight s"
  by (induction "is" arbitrary: s) (simp_all add: length_batchStep)

lemma length_batchUpdatePixels:
  "length (pixelData (batchUpdatePixels is c s)) = length (pixelData s)
   \<and> gridWidth (batchUpdatePixels is c s) = gridWidth s
   \<and> gridHeight (batchUpdatePixels is c s) = gridHeight s"
  by (simp add: batchUpdatePixels_def Let_def fold_batchStep)

lemma length_applyPixelArray:
  "length (pixelData (applyPixelArray ps s)) = length (pixelData s)
   \<and> gridWidth (applyPixelArray ps s) = gridWidth s
   \<and> gridHeight (applyPixelArray ps s) = gridHeight s"
  by (simp add: applyPixelArray_def Let_def)

lemma length_perform:
  assumes "length (pixelData s) = gridWidth s * gridHeight s"
    and "c \<noteq> Undo"
    and "\<And>i col. c = UpdatePixel i col \<Longrightarrow> i < length (pixelData s)"
  shows "length (pixelData (perform c s)) = gridWidth (perform c s) * gridHeight (perform c s)"
proof (cases c)
  case ScheduleSend
  with assms(1) show ?thesis by simp
next
  case (UpdatePixel i col)
  with assms(1) assms(3) [OF UpdatePixel] show ?thesis by (simp add: length_updatePixel)
next
  case (BatchUpdatePixels "is" col)
  with assms(1) show ?thesis by (simp add: length_batchUpdatePixels)
next
  case (ApplyPixelArray ps)
  with assms(1) show ?thesis by (simp add: length_applyPixelArray)
next
  case ClearScreen
  then show ?thesis by (simp add: length_clearScreen)
next
  case Undo
  with assms(2) show ?thesis by simp
next
  case (SetDimensions w h)
  with assms(1) show ?thesis by (simp add: length_resize)
qed

lemmas run_defs = grid2x2_defs clearScreen_def saveToHistory_def maxHistoryLength_def
  saveToLocalStorage_def toString_def debouncedSendToWled_def resize_def undo_def undoAction_def
  js_set_def js_get_def

text \<open>
  C4. The buffer is meant to hold \<open>gridWidth * gridHeight\<close> cells at all times, also after
  an undo of a clear recorded before a change of dimensions. The log survives the change
  of dimensions, and \<open>undo\<close> restores the recorded copy without looking at its length:
  on the 2x2 grid, clear, resize to 3x3 (the buffer then has 9 cells) and undo leave a
  buffer of 4 cells on a grid of 3 by 3.
\<close>

theorem undo_stale_clear_after_resize:
  "length (pixelData (undo (resize 3 3 (clearScreen grid2x2)))) = 4
   \<and> gridWidth (undo (resize 3 3 (clearScreen grid2x2))) = 3
   \<and> gridHeight (undo (resize 3 3 (clearScreen grid2x2))) = 3
   \<and> length (pixelData (resize 3 3 (clearScreen grid2x2))) = 9"
  by (simp add: run_defs Let_def upt_rec)

subsection \<open>The debounce window\<close>

















lemma wledJson_frames [simp]: "wledJson (s\<lparr>frames := n\<rparr>) = wledJson s"
  by (simp add: wledJson_def)
















text \<open>
  In general, a successful response to an earlier request that arrives inside the window
  clears the pending flag, and the time-out then expires without sending.
\<close>

lemma response_in_window_cancels_send:
  assumes "idle h sent s" and "awaited s > 0"
  shows "posted (frameCallback (timerCallback h (responseOk (debouncedSendToWled s)))) = sent"
  using assms
  by (simp add: idle_def debouncedSendToWled_def responseOk_def timerCallback_def
      frameCallback_def Let_def)

end
